theory Spec2Isabelle
  imports Main "HOL-Library.AList" "HOL-Library.Multiset" "HOL-Library.Word"
begin

unbundle bit_operations_syntax

section \<open>Python strings and integers\<close>

text \<open>
  A Python \<open>str\<close> is modelled as a \<open>string\<close>; a \<open>char\<close> stands for the code point
  with the same number (0..255). Code points above 255 are outside the model. Python's
  \<open>int\<close> is unbounded and is modelled as \<open>int\<close>; the interpreter's optional limit on
  the number of digits of an integer-string conversion is taken to be switched off.
\<close>

text \<open>
  The exceptions that the operations of this module meet. \<open>OSError\<close> stands for the errors
  of the operating system that the state of the directories does not explain (permissions,
  a full disk), \<open>LookupError\<close> and \<open>UnicodeEncodeError\<close> for what a codec raises, and
  \<open>SerializationError\<close> for what the response's serializer raises.
\<close>

datatype error =
    ValueError
  | BinasciiError
  | FileExistsError
  | FileNotFoundError
  | NotADirectoryError
  | IsADirectoryError
  | OSError string
  | LookupError
  | UnicodeEncodeError
  | SerializationError string

definition digit_char :: "nat \<Rightarrow> char" where
  "digit_char d = char_of (48 + d)"

text \<open>The decimal digits of a natural number, most significant first, no leading zero.\<close>

fun digits :: "nat \<Rightarrow> string" where
  "digits n = (if n < 10 then [digit_char n] else digits (n div 10) @ [digit_char (n mod 10)])"

declare digits.simps [simp del]

text \<open>\<open>str(i)\<close>, which is also what \<open>f"{i}"\<close> inserts for an integer \<open>i\<close>.\<close>

definition str_int :: "int \<Rightarrow> string" where
  "str_int i = (if i < 0 then CHR ''-'' # digits (nat (- i)) else digits (nat i))"

definition is_digit :: "char \<Rightarrow> bool" where
  "is_digit c \<longleftrightarrow> 48 \<le> (of_char c :: nat) \<and> (of_char c :: nat) \<le> 57"

definition digit_val :: "char \<Rightarrow> nat" where
  "digit_val c = of_char c - 48"

text \<open>
  The characters that \<open>int(s)\<close> strips from both ends of \<open>s\<close>: tab, line feed, vertical
  tab, form feed, carriage return and space, and the two spaces beyond ASCII that exist
  below 256 (next line, no-break space).
\<close>

definition is_space :: "char \<Rightarrow> bool" where
  "is_space c \<longleftrightarrow> (of_char c :: nat) \<in> {9, 10, 11, 12, 13, 32, 133, 160}"

definition strip :: "string \<Rightarrow> string" where
  "strip s = rev (dropWhile is_space (rev (dropWhile is_space s)))"

text \<open>
  The digit part of an integer literal: digits, with single underscores allowed between
  two digits only.
\<close>

fun digit_groups :: "bool \<Rightarrow> string \<Rightarrow> bool" where
  "digit_groups after_digit [] = after_digit"
| "digit_groups after_digit (c # cs) =
     (if is_digit c then digit_groups True cs
      else if c = CHR ''_'' then after_digit \<and> digit_groups False cs
      else False)"

definition digits_value :: "string \<Rightarrow> nat" where
  "digits_value s = foldl (\<lambda>acc c. 10 * acc + digit_val c) 0 (filter is_digit s)"

text \<open>\<open>int(s)\<close> for a string \<open>s\<close> (base 10): the value, or \<open>ValueError\<close>.\<close>

definition py_int :: "string \<Rightarrow> error + int" where
  "py_int s =
     (let t = strip s;
          neg = (t \<noteq> [] \<and> hd t = CHR ''-'');
          u = (if t \<noteq> [] \<and> (hd t = CHR ''-'' \<or> hd t = CHR ''+'') then tl t else t)
      in if digit_groups False u
         then Inr (if neg then - int (digits_value u) else int (digits_value u))
         else Inl ValueError)"

text \<open>\<open>s.split(sep)\<close> for a one-character separator: never the empty list.\<close>

fun split :: "char \<Rightarrow> string \<Rightarrow> string list" where
  "split sep [] = [[]]"
| "split sep (c # cs) =
     (if c = sep then [] # split sep cs
      else (case split sep cs of
              [] \<Rightarrow> [[c]]
            | field # fields \<Rightarrow> (c # field) # fields))"

definition startswith :: "string \<Rightarrow> string \<Rightarrow> bool" where
  "startswith s p \<longleftrightarrow> take (length p) s = p"

text \<open>\<open>sep.join(xs)\<close>.\<close>

fun join :: "string \<Rightarrow> string list \<Rightarrow> string" where
  "join sep [] = []"
| "join sep [x] = x"
| "join sep (x # y # ys) = x @ sep @ join sep (y # ys)"

section \<open>File names\<close>

text \<open>\<open>f"screenshot_{self.agent_id}_{step_number}.png"\<close>\<close>

definition screenshot_filename :: "string \<Rightarrow> int \<Rightarrow> string" where
  "screenshot_filename agent_id step_number =
     ''screenshot_'' @ agent_id @ ''_'' @ str_int step_number @ ''.png''"

text \<open>\<open>f"conversation_{self.agent_id}_{step_number}.txt"\<close>\<close>

definition conversation_filename :: "string \<Rightarrow> int \<Rightarrow> string" where
  "conversation_filename agent_id step_number =
     ''conversation_'' @ agent_id @ ''_'' @ str_int step_number @ ''.txt''"

text \<open>The sort key of the index: \<open>int(x.split("_")[-1].split(".")[0])\<close>, and its argument.\<close>

definition step_segment :: "string \<Rightarrow> string" where
  "step_segment x = hd (split CHR ''.'' (last (split CHR ''_'' x)))"

definition step_key :: "string \<Rightarrow> error + int" where
  "step_key x = py_int (step_segment x)"

section \<open>Paths\<close>

text \<open>
  A \<open>pathlib\<close> path on a POSIX system: the anchor (empty for a relative path, \<open>/\<close> or
  \<open>//\<close> otherwise) and the parts after it.
\<close>

record path =
  anchor :: string
  parts :: "string list"

definition name_anchor :: "string \<Rightarrow> string" where
  "name_anchor s =
     (if startswith s ''//'' \<and> \<not> startswith s ''///'' then ''//''
      else if startswith s ''/'' then ''/''
      else [])"

text \<open>The parts of a string given to \<open>Path\<close>: empty parts and \<open>.\<close> are dropped.\<close>

definition name_parts :: "string \<Rightarrow> string list" where
  "name_parts s = filter (\<lambda>x. x \<noteq> [] \<and> x \<noteq> ''.'') (split CHR ''/'' s)"

text \<open>\<open>Path(s)\<close>\<close>

definition Path :: "string \<Rightarrow> path" where
  "Path s = \<lparr>anchor = name_anchor s, parts = name_parts s\<rparr>"

text \<open>\<open>p / s\<close>: an absolute \<open>s\<close> replaces \<open>p\<close>.\<close>

definition path_div :: "path \<Rightarrow> string \<Rightarrow> path" where
  "path_div p s = (if name_anchor s \<noteq> [] then Path s else p\<lparr>parts := parts p @ name_parts s\<rparr>)"

text \<open>\<open>str(p)\<close>\<close>

definition str_path :: "path \<Rightarrow> string" where
  "str_path p =
     (if parts p = [] then (if anchor p = [] then ''.'' else anchor p)
      else anchor p @ join ''/'' (parts p))"

definition parent :: "path \<Rightarrow> path" where
  "parent p = p\<lparr>parts := butlast (parts p)\<rparr>"

text \<open>\<open>p.name\<close>\<close>

definition name :: "path \<Rightarrow> string" where
  "name p = (if parts p = [] then [] else last (parts p))"

text \<open>\<open>s.rfind(".")\<close>: the index of the last dot, or \<open>-1\<close>.\<close>

definition rfind_dot :: "string \<Rightarrow> int" where
  "rfind_dot s =
     (let r = takeWhile (\<lambda>c. c \<noteq> CHR ''.'') (rev s)
      in if length r = length s then - 1 else int (length s) - int (length r) - 1)"

text \<open>\<open>p.suffix\<close>, from the name of \<open>p\<close>.\<close>

definition suffix :: "string \<Rightarrow> string" where
  "suffix nm =
     (let i = rfind_dot nm
      in if 0 < i \<and> i < int (length nm) - 1 then drop (nat i) nm else [])"

section \<open>The file system and the logger\<close>

datatype node = Dir | File string

datatype level = DEBUG | INFO | WARNING

text \<open>A log record: the level, the text of the message and, when the message ends with the
  text of an exception, that exception.\<close>

type_synonym log_record = "level \<times> string \<times> error option"

text \<open>
  The world the module acts on: the directory entries in the order a listing returns them,
  the paths at which the operating system refuses an operation (with the message of the
  \<open>OSError\<close>), the text codecs of the platform (\<open>None\<close> is the locale's default), and
  the records the logger has received.
\<close>

record world =
  nodes :: "(path \<times> node) list"
  fault :: "path \<Rightarrow> string option"
  codec :: "string option \<Rightarrow> string \<Rightarrow> error + string"
  log :: "log_record list"

definition logger :: "level \<Rightarrow> string \<Rightarrow> error option \<Rightarrow> world \<Rightarrow> world" where
  "logger lv msg e w = w\<lparr>log := log w @ [(lv, msg, e)]\<rparr>"

text \<open>The current directory and the root always exist.\<close>

definition lookup :: "world \<Rightarrow> path \<Rightarrow> node option" where
  "lookup w p = (if parts p = [] then Some Dir else map_of (nodes w) p)"

definition exists :: "path \<Rightarrow> world \<Rightarrow> bool" where
  "exists p w \<longleftrightarrow> lookup w p \<noteq> None"

definition is_dir :: "path \<Rightarrow> world \<Rightarrow> bool" where
  "is_dir p w \<longleftrightarrow> lookup w p = Some Dir"

text \<open>\<open>os.mkdir(p)\<close>\<close>

definition os_mkdir :: "path \<Rightarrow> world \<Rightarrow> (error + unit) \<times> world" where
  "os_mkdir p w =
     (case lookup w p of
        Some _ \<Rightarrow> (Inl FileExistsError, w)
      | None \<Rightarrow>
         (case lookup w (parent p) of
            None \<Rightarrow> (Inl FileNotFoundError, w)
          | Some (File _) \<Rightarrow> (Inl NotADirectoryError, w)
          | Some Dir \<Rightarrow>
             (case fault w p of
                Some m \<Rightarrow> (Inl (OSError m), w)
              | None \<Rightarrow> (Inr (), w\<lparr>nodes := nodes w @ [(p, Dir)]\<rparr>))))"

text \<open>\<open>p.mkdir(parents=False, exist_ok=True)\<close>\<close>

definition mkdir_leaf :: "path \<Rightarrow> world \<Rightarrow> (error + unit) \<times> world" where
  "mkdir_leaf p w =
     (case os_mkdir p w of
        (Inr u, w') \<Rightarrow> (Inr u, w')
      | (Inl FileNotFoundError, w') \<Rightarrow> (Inl FileNotFoundError, w')
      | (Inl e, w') \<Rightarrow> (if is_dir p w' then (Inr (), w') else (Inl e, w')))"

text \<open>\<open>p.mkdir(parents=True, exist_ok=True)\<close>\<close>

function mkdir :: "path \<Rightarrow> world \<Rightarrow> (error + unit) \<times> world" where
  "mkdir p w =
     (case os_mkdir p w of
        (Inr u, w') \<Rightarrow> (Inr u, w')
      | (Inl FileNotFoundError, w') \<Rightarrow>
          (if parts p = [] then (Inl FileNotFoundError, w')
           else (case mkdir (parent p) w' of
                   (Inl e, w'') \<Rightarrow> (Inl e, w'')
                 | (Inr _, w'') \<Rightarrow> mkdir_leaf p w''))
      | (Inl e, w') \<Rightarrow> (if is_dir p w' then (Inr (), w') else (Inl e, w')))"
  by pat_completeness auto
termination
  by (relation "measure (\<lambda>(p, w). length (parts p))") (auto simp: parent_def)

declare mkdir.simps [simp del]

text \<open>Opening \<open>p\<close> for writing: the file is created, or emptied when it exists.\<close>

definition open_w :: "path \<Rightarrow> world \<Rightarrow> (error + unit) \<times> world" where
  "open_w p w =
     (case lookup w (parent p) of
        None \<Rightarrow> (Inl FileNotFoundError, w)
      | Some (File _) \<Rightarrow> (Inl NotADirectoryError, w)
      | Some Dir \<Rightarrow>
         (case lookup w p of
            Some Dir \<Rightarrow> (Inl IsADirectoryError, w)
          | _ \<Rightarrow>
             (case fault w p of
                Some m \<Rightarrow> (Inl (OSError m), w)
              | None \<Rightarrow> (Inr (), w\<lparr>nodes := AList.update p (File []) (nodes w)\<rparr>))))"

text \<open>\<open>p.write_bytes(data)\<close>\<close>

definition write_bytes :: "path \<Rightarrow> string \<Rightarrow> world \<Rightarrow> (error + unit) \<times> world" where
  "write_bytes p data w =
     (case open_w p w of
        (Inl e, w') \<Rightarrow> (Inl e, w')
      | (Inr _, w') \<Rightarrow> (Inr (), w'\<lparr>nodes := AList.update p (File data) (nodes w')\<rparr>))"

text \<open>\<open>p.write_text(data, encoding=enc)\<close>: the file is opened before the text is encoded.\<close>

definition write_text :: "path \<Rightarrow> string \<Rightarrow> string option \<Rightarrow> world \<Rightarrow> (error + unit) \<times> world" where
  "write_text p data enc w =
     (case open_w p w of
        (Inl e, w') \<Rightarrow> (Inl e, w')
      | (Inr _, w') \<Rightarrow>
         (case codec w' enc data of
            Inl e \<Rightarrow> (Inl e, w')
          | Inr bytes \<Rightarrow> (Inr (), w'\<lparr>nodes := AList.update p (File bytes) (nodes w')\<rparr>)))"

text \<open>\<open>p.iterdir()\<close>, run to its end: the paths of the entries of \<open>p\<close>.\<close>

definition iterdir :: "path \<Rightarrow> world \<Rightarrow> error + path list" where
  "iterdir p w =
     (case lookup w p of
        None \<Rightarrow> Inl FileNotFoundError
      | Some (File _) \<Rightarrow> Inl NotADirectoryError
      | Some Dir \<Rightarrow>
         (case fault w p of
            Some m \<Rightarrow> Inl (OSError m)
          | None \<Rightarrow> Inr (filter (\<lambda>q. parts q \<noteq> [] \<and> parent q = p) (map fst (nodes w)))))"


section \<open>Base64 decoding\<close>

text \<open>
  \<open>base64.b64decode(s)\<close> for a string \<open>s\<close>, with its default \<open>validate=False\<close>: the
  string has to be ASCII, and the decoder then skips every character outside the alphabet.
  The loop below is the decoder's loop over the input, with its state: the position in the
  current group of four, the bits left over from the previous character and the number of
  pad characters seen in a row.
\<close>

definition b64_index :: "char \<Rightarrow> 8 word option" where
  "b64_index c =
     (let n = (of_char c :: nat)
      in if 65 \<le> n \<and> n \<le> 90 then Some (of_nat (n - 65))
         else if 97 \<le> n \<and> n \<le> 122 then Some (of_nat (n - 71))
         else if 48 \<le> n \<and> n \<le> 57 then Some (of_nat (n + 4))
         else if c = CHR ''+'' then Some 62
         else if c = CHR ''/'' then Some 63
         else None)"

definition byte :: "8 word \<Rightarrow> char" where
  "byte b = char_of (unat b)"

fun a2b_base64 :: "nat \<Rightarrow> 8 word \<Rightarrow> nat \<Rightarrow> string \<Rightarrow> string \<Rightarrow> error + string" where
  "a2b_base64 quad_pos leftchar pads bin [] =
     (if quad_pos \<noteq> 0 then Inl BinasciiError else Inr bin)"
| "a2b_base64 quad_pos leftchar pads bin (c # cs) =
     (if c = CHR ''='' then
        (if quad_pos \<ge> 2 then
           (if quad_pos + (pads + 1) \<ge> 4 then Inr bin
            else a2b_base64 quad_pos leftchar (pads + 1) bin cs)
         else a2b_base64 quad_pos leftchar pads bin cs)
      else
        (case b64_index c of
           None \<Rightarrow> a2b_base64 quad_pos leftchar pads bin cs
         | Some this_ch \<Rightarrow>
            (if quad_pos = 0 then a2b_base64 1 this_ch 0 bin cs
             else if quad_pos = 1 then
               a2b_base64 2 (this_ch AND 0x0f) 0
                 (bin @ [byte (push_bit 2 leftchar OR drop_bit 4 this_ch)]) cs
             else if quad_pos = 2 then
               a2b_base64 3 (this_ch AND 0x03) 0
                 (bin @ [byte (push_bit 4 leftchar OR drop_bit 2 this_ch)]) cs
             else
               a2b_base64 0 0 0 (bin @ [byte (push_bit 6 leftchar OR this_ch)]) cs)))"

definition b64decode :: "string \<Rightarrow> error + string" where
  "b64decode s =
     (if \<exists>c\<in>set s. (of_char c :: nat) \<ge> 128 then Inl ValueError
      else a2b_base64 0 0 0 [] s)"

section \<open>JSON text\<close>

datatype json =
    JNull
  | JBool bool
  | JInt int
  | JFloat string
  | JString string
  | JArray "json list"
  | JObject "(string \<times> json) list"

definition hex_digit :: "nat \<Rightarrow> char" where
  "hex_digit d = (if d < 10 then char_of (48 + d) else char_of (87 + d))"

text \<open>The escape of one character in a JSON string (\<open>ensure_ascii\<close> is on).\<close>

definition escape_char :: "char \<Rightarrow> string" where
  "escape_char c =
     (let n = (of_char c :: nat)
      in if c = CHR 0x22 then [CHR 0x5C, CHR 0x22]
         else if c = CHR 0x5C then [CHR 0x5C, CHR 0x5C]
         else if c = CHR 0x0A then [CHR 0x5C, CHR ''n'']
         else if c = CHR 0x0D then [CHR 0x5C, CHR ''r'']
         else if c = CHR 0x09 then [CHR 0x5C, CHR ''t'']
         else if c = CHR 0x08 then [CHR 0x5C, CHR ''b'']
         else if c = CHR 0x0C then [CHR 0x5C, CHR ''f'']
         else if 32 \<le> n \<and> n \<le> 126 then [c]
         else [CHR 0x5C, CHR ''u'', CHR ''0'', CHR ''0'', hex_digit (n div 16), hex_digit (n mod 16)])"

definition quote :: "string \<Rightarrow> string" where
  "quote s = [CHR 0x22] @ concat (map escape_char s) @ [CHR 0x22]"

text \<open>A line break followed by the indentation of the given level (two spaces a level).\<close>

definition newline_indent :: "nat \<Rightarrow> string" where
  "newline_indent lvl = CHR 0x0A # replicate (2 * lvl) CHR '' ''"

text \<open>\<open>json.dumps(v, indent=2)\<close>, at the given indentation level. A float is kept as the
  text Python prints for it.\<close>

fun dumps :: "nat \<Rightarrow> json \<Rightarrow> string" where
  "dumps lvl JNull = ''null''"
| "dumps lvl (JBool b) = (if b then ''true'' else ''false'')"
| "dumps lvl (JInt i) = str_int i"
| "dumps lvl (JFloat r) = r"
| "dumps lvl (JString s) = quote s"
| "dumps lvl (JArray xs) =
     (if xs = [] then ''[]''
      else ''['' @ newline_indent (lvl + 1)
           @ join ('','' @ newline_indent (lvl + 1)) (map (dumps (lvl + 1)) xs)
           @ newline_indent lvl @ '']'')"
| "dumps lvl (JObject kvs) =
     (if kvs = [] then ''{}''
      else ''{'' @ newline_indent (lvl + 1)
           @ join ('','' @ newline_indent (lvl + 1))
               (map (\<lambda>(k, v). quote k @ '': '' @ dumps (lvl + 1) v) kvs)
           @ newline_indent lvl @ ''}'')"

definition json_dumps :: "json \<Rightarrow> string" where
  "json_dumps v = dumps 0 v"


section \<open>The collaborators' objects\<close>

text \<open>Modelled from the spec: \<open>BrowserStateSummary\<close> (declared in \<open>browser_use.browser.views\<close>),
  of which this module reads the optional base64 screenshot.\<close>

record browser_state_summary =
  screenshot :: "string option"

text \<open>Modelled from the spec: \<open>BaseMessage\<close> (declared in \<open>browser_use.llm.messages\<close>), an
  object with a role label and a plain text.\<close>

record message =
  role :: string
  message_text :: string

text \<open>Modelled from the spec: the response (\<open>AgentOutput\<close>, declared in
  \<open>browser_use.agent.views\<close>), an object with the method \<open>model_dump_json(exclude_unset)\<close>.
  The method raises or returns JSON text; the text is kept here as the value that
  \<open>json.loads\<close> reads from it.\<close>

record response =
  model_dump_json :: "bool \<Rightarrow> error + json"

text \<open>Modelled from the spec: a response with the given declared fields, of which
  \<open>model_fields_set\<close> were set explicitly; with \<open>exclude_unset\<close> the other fields are omitted.\<close>

definition BaseModel :: "(string \<times> json) list \<Rightarrow> string list \<Rightarrow> response" where
  "BaseModel model_fields model_fields_set =
     \<lparr>model_dump_json = (\<lambda>exclude_unset.
        Inr (JObject (filter (\<lambda>(k, v). if exclude_unset then k \<in> set model_fields_set else True)
                        model_fields)))\<rparr>"

section \<open>ScreenshotManager\<close>

record manager =
  conversation_dir :: path
  agent_id :: string
  screenshots_dir :: path

text \<open>\<open>ScreenshotManager.__init__\<close>, from a directory that is a path already.\<close>

definition ScreenshotManager :: "path \<Rightarrow> string \<Rightarrow> manager" where
  "ScreenshotManager dir aid =
     \<lparr>conversation_dir = dir, agent_id = aid, screenshots_dir = path_div dir ''screenshots''\<rparr>"

text \<open>The body of the \<open>try\<close> of \<open>save_step_screenshot\<close>, for a payload that is present.\<close>

definition save_step_screenshot_try ::
  "manager \<Rightarrow> string \<Rightarrow> int \<Rightarrow> world \<Rightarrow> (error + string) \<times> world" where
  "save_step_screenshot_try self payload step_number w =
     (case mkdir (screenshots_dir self) w of
        (Inl e, w1) \<Rightarrow> (Inl e, w1)
      | (Inr _, w1) \<Rightarrow>
         (let screenshot_path =
                path_div (screenshots_dir self) (screenshot_filename (agent_id self) step_number)
          in case b64decode payload of
               Inl e \<Rightarrow> (Inl e, w1)
             | Inr screenshot_data \<Rightarrow>
                (case write_bytes screenshot_path screenshot_data w1 of
                   (Inl e, w2) \<Rightarrow> (Inl e, w2)
                 | (Inr _, w2) \<Rightarrow>
                    (Inr (str_path screenshot_path),
                     logger DEBUG (''Screenshot saved: '' @ str_path screenshot_path) None w2))))"

text \<open>\<open>save_step_screenshot\<close>: the result is the path, or \<open>None\<close>; \<open>Inl\<close> would be an
  exception that reaches the caller.\<close>

definition save_step_screenshot ::
  "manager \<Rightarrow> browser_state_summary \<Rightarrow> int \<Rightarrow> world \<Rightarrow> (error + string option) \<times> world" where
  "save_step_screenshot self bss step_number w =
     (case screenshot bss of
        None \<Rightarrow>
          (Inr None,
           logger DEBUG (''No screenshot available for step '' @ str_int step_number) None w)
      | Some payload \<Rightarrow>
          (if payload = [] then
             (Inr None,
              logger DEBUG (''No screenshot available for step '' @ str_int step_number) None w)
           else
             (case save_step_screenshot_try self payload step_number w of
                (Inr p, w') \<Rightarrow> (Inr (Some p), w')
              | (Inl e, w') \<Rightarrow>
                 (Inr None,
                  logger WARNING
                    (''Failed to save screenshot for step '' @ str_int step_number @ '': '')
                    (Some e) w'))))"

text \<open>\<open>_format_conversation_with_screenshot_refs\<close>: the list \<open>lines\<close> grows by appending.\<close>

definition format_conversation_with_screenshot_refs ::
  "manager \<Rightarrow> message list \<Rightarrow> response \<Rightarrow> int \<Rightarrow> error + string" where
  "format_conversation_with_screenshot_refs self messages resp step_number =
     (let screenshot_ref =
            ''screenshots/screenshot_'' @ agent_id self @ ''_'' @ str_int step_number @ ''.png'';
          lines1 = [] @ [''SCREENSHOT: '' @ screenshot_ref];
          lines2 = lines1 @ [[]];
          lines3 = foldl (\<lambda>lines m. ((lines @ ['' '' @ role m @ '' '']) @ [message_text m]) @ [[]])
                     lines2 messages;
          lines4 = lines3 @ ['' RESPONSE'']
      in case model_dump_json resp True of
           Inl e \<Rightarrow> Inl e
         | Inr v \<Rightarrow> Inr (join [CHR 0x0A] (lines4 @ [json_dumps v])))"

text \<open>\<open>encoding or "utf-8"\<close>\<close>

definition encoding_or_utf8 :: "string option \<Rightarrow> string" where
  "encoding_or_utf8 encoding =
     (case encoding of None \<Rightarrow> ''utf-8'' | Some enc \<Rightarrow> (if enc = [] then ''utf-8'' else enc))"

text \<open>The method \<open>save_conversation_with_screenshots\<close>.\<close>

definition save_conversation_with_screenshots ::
  "manager \<Rightarrow> message list \<Rightarrow> response \<Rightarrow> browser_state_summary \<Rightarrow> int \<Rightarrow> string option
    \<Rightarrow> world \<Rightarrow> (error + string \<times> string option) \<times> world" where
  "save_conversation_with_screenshots self input_messages resp bss step_number encoding w =
     (let conversation_path =
            path_div (conversation_dir self) (conversation_filename (agent_id self) step_number)
      in case mkdir (conversation_dir self) w of
           (Inl e, w1) \<Rightarrow> (Inl e, w1)
         | (Inr _, w1) \<Rightarrow>
            (case format_conversation_with_screenshot_refs self input_messages resp step_number of
               Inl e \<Rightarrow> (Inl e, w1)
             | Inr conversation_text \<Rightarrow>
                (case write_text conversation_path conversation_text
                        (Some (encoding_or_utf8 encoding)) w1 of
                   (Inl e, w2) \<Rightarrow> (Inl e, w2)
                 | (Inr _, w2) \<Rightarrow>
                    (case save_step_screenshot self bss step_number w2 of
                       (Inl e, w3) \<Rightarrow> (Inl e, w3)
                     | (Inr screenshot_path, w3) \<Rightarrow>
                        (Inr (str_path conversation_path, screenshot_path), w3)))))"

text \<open>The module's function of the same name, which builds the manager first.\<close>

definition module_save_conversation_with_screenshots ::
  "message list \<Rightarrow> response \<Rightarrow> browser_state_summary \<Rightarrow> string \<Rightarrow> string \<Rightarrow> int
    \<Rightarrow> string option \<Rightarrow> world \<Rightarrow> (error + string \<times> string option) \<times> world" where
  "module_save_conversation_with_screenshots input_messages resp bss target_dir aid step_number
       encoding w =
     save_conversation_with_screenshots (ScreenshotManager (Path target_dir) aid)
       input_messages resp bss step_number encoding w"

text \<open>The keys of \<open>list.sort(key=...)\<close>, computed before anything is moved; the first key
  that raises ends the sort.\<close>

fun sort_keys :: "string list \<Rightarrow> error + int list" where
  "sort_keys [] = Inr []"
| "sort_keys (x # xs) =
     (case step_key x of
        Inl e \<Rightarrow> Inl e
      | Inr k \<Rightarrow> (case sort_keys xs of Inl e \<Rightarrow> Inl e | Inr ks \<Rightarrow> Inr (k # ks)))"

text \<open>\<open>screenshot_files.sort(key=lambda x: int(x.split("_")[-1].split(".")[0]))\<close>: a stable
  sort of the names by their keys.\<close>

definition sort_by_step :: "string list \<Rightarrow> error + string list" where
  "sort_by_step files =
     (case sort_keys files of
        Inl e \<Rightarrow> Inl e
      | Inr ks \<Rightarrow> Inr (map snd (sort_key fst (zip ks files))))"

text \<open>The names that \<open>create_screenshot_index\<close> collects from a listing.\<close>

definition select_screenshots :: "string \<Rightarrow> path list \<Rightarrow> string list" where
  "select_screenshots aid paths =
     map name (filter (\<lambda>p. suffix (name p) = ''.png''
                         \<and> startswith (name p) (''screenshot_'' @ aid @ ''_'')) paths)"

text \<open>The lines of the index, for the sorted names.\<close>

definition index_content :: "string \<Rightarrow> string list \<Rightarrow> string list" where
  "index_content aid screenshot_files =
     (let content1 = [''# Screenshot Index'', []];
          content2 = content1 @ [''Agent ID: '' @ aid];
          content3 = content2 @ [''Total Screenshots: '' @ str_int (int (length screenshot_files))];
          content4 = content3 @ [[]]
      in foldl (\<lambda>content screenshot_file.
                  content @ [''Step '' @ step_segment screenshot_file @ '': '' @ screenshot_file])
           content4 screenshot_files)"

text \<open>The body of the \<open>try\<close> of \<open>create_screenshot_index\<close>.\<close>

definition create_screenshot_index_try :: "manager \<Rightarrow> world \<Rightarrow> (error + unit) \<times> world" where
  "create_screenshot_index_try self w =
     (if \<not> exists (screenshots_dir self) w then (Inr (), w)
      else
        (case iterdir (screenshots_dir self) w of
           Inl e \<Rightarrow> (Inl e, w)
         | Inr paths \<Rightarrow>
            (let screenshot_files = select_screenshots (agent_id self) paths
             in if screenshot_files = [] then (Inr (), w)
                else
                  (case sort_by_step screenshot_files of
                     Inl e \<Rightarrow> (Inl e, w)
                   | Inr sorted_files \<Rightarrow>
                      (let index_path = path_div (screenshots_dir self) ''index.md''
                       in case write_text index_path
                                 (join [CHR 0x0A] (index_content (agent_id self) sorted_files))
                                 None w of
                            (Inl e, w') \<Rightarrow> (Inl e, w')
                          | (Inr _, w') \<Rightarrow>
                             (Inr (),
                              logger INFO (''Screenshot index created: '' @ str_path index_path)
                                None w'))))))"

text \<open>\<open>create_screenshot_index\<close>\<close>

definition create_screenshot_index :: "manager \<Rightarrow> world \<Rightarrow> (error + unit) \<times> world" where
  "create_screenshot_index self w =
     (case create_screenshot_index_try self w of
        (Inr u, w') \<Rightarrow> (Inr u, w')
      | (Inl e, w') \<Rightarrow>
         (Inr (), logger WARNING ''Failed to create screenshot index: '' (Some e) w'))"


section \<open>The formats as the specification words them\<close>

text \<open>
  The transcript of a step, as the specification describes it: the line of the screenshot
  reference and a blank line; for each message the role between two spaces, the text and a
  blank line; the marker of the response and the response's JSON text. Every line but the
  last ends with one line feed.
\<close>

definition transcript_text :: "string \<Rightarrow> int \<Rightarrow> message list \<Rightarrow> string \<Rightarrow> string" where
  "transcript_text aid step_number messages response_text =
     ''SCREENSHOT: screenshots/'' @ screenshot_filename aid step_number @ [CHR 0x0A]
     @ [CHR 0x0A]
     @ concat (map (\<lambda>m. '' '' @ role m @ '' '' @ [CHR 0x0A]
                         @ message_text m @ [CHR 0x0A]
                         @ [CHR 0x0A]) messages)
     @ '' RESPONSE'' @ [CHR 0x0A]
     @ response_text"

text \<open>
  The index, as the specification describes it: title, blank line, agent, count, blank line,
  and a line for each screenshot; the lines are joined by line feeds.
\<close>

definition index_lines :: "string \<Rightarrow> string list \<Rightarrow> string list" where
  "index_lines aid screenshot_files =
     [''# Screenshot Index'', [], ''Agent ID: '' @ aid,
      ''Total Screenshots: '' @ str_int (int (length screenshot_files)), []]
     @ map (\<lambda>f. ''Step '' @ step_segment f @ '': '' @ f) screenshot_files"

definition index_text :: "string \<Rightarrow> string list \<Rightarrow> string" where
  "index_text aid screenshot_files = join [CHR 0x0A] (index_lines aid screenshot_files)"

text \<open>The number that a file name's step segment stands for, when it is one.\<close>

definition step_number_of :: "string \<Rightarrow> int" where
  "step_number_of x = (case step_key x of Inr k \<Rightarrow> k | Inl _ \<Rightarrow> 0)"

section \<open>Worlds to run the operations in\<close>

text \<open>An empty file system that refuses nothing, whose codecs leave a text as it is, and
  an empty log.\<close>

definition fresh_world :: world where
  "fresh_world = \<lparr>nodes = [], fault = (\<lambda>_. None), codec = (\<lambda>_ s. Inr s), log = []\<rparr>"

text \<open>The manager of the agent \<open>A1\<close> that writes below the relative directory \<open>out\<close>.\<close>

definition example_manager :: manager where
  "example_manager = ScreenshotManager (Path ''out'') ''A1''"

text \<open>The path of an entry of that manager's screenshots directory.\<close>

definition shot :: "string \<Rightarrow> path" where
  "shot nm = \<lparr>anchor = [], parts = [''out'', ''screenshots'', nm]\<rparr>"

text \<open>The world in which that directory exists and holds the given files, in this order.\<close>

definition world_with :: "(string \<times> string) list \<Rightarrow> world" where
  "world_with files =
     fresh_world\<lparr>nodes :=
       [(\<lparr>anchor = [], parts = [''out'']\<rparr>, Dir),
        (\<lparr>anchor = [], parts = [''out'', ''screenshots'']\<rparr>, Dir)]
       @ map (\<lambda>(nm, bytes). (shot nm, File bytes)) files\<rparr>"

section \<open>Decimal text of integers, and reading it back\<close>

lemma is_digit_digit_char: "d < 10 \<Longrightarrow> is_digit (digit_char d)"
  by (simp add: is_digit_def digit_char_def)

lemma digit_val_digit_char: "d < 10 \<Longrightarrow> digit_val (digit_char d) = d"
  by (simp add: digit_val_def digit_char_def)

lemma digits_nonempty: "digits n \<noteq> []"
  by (subst digits.simps) simp

lemma digits_all_digit: "c \<in> set (digits n) \<Longrightarrow> is_digit c"
proof (induction n arbitrary: c rule: digits.induct)
  case (1 n)
  show ?case
  proof (cases "n < 10")
    case True
    with "1.prems" show ?thesis
      by (subst (asm) digits.simps) (simp add: is_digit_digit_char)
  next
    case False
    with "1.prems" have "c \<in> set (digits (n div 10)) \<or> c = digit_char (n mod 10)"
      by (subst (asm) digits.simps) auto
    with False "1.IH" show ?thesis
      by (auto simp: is_digit_digit_char)
  qed
qed

lemma digits_Ball: "\<forall>c\<in>set (digits n). is_digit c"
  by (blast intro: digits_all_digit)

lemma filter_digits: "filter is_digit (digits n) = digits n"
  using digits_Ball[of n] by (simp add: filter_id_conv)

lemma digits_value_digits: "digits_value (digits n) = n"
proof (induction n rule: digits.induct)
  case (1 n)
  show ?case
  proof (cases "n < 10")
    case True
    then show ?thesis
      by (subst digits.simps) (simp add: digits_value_def is_digit_digit_char digit_val_digit_char)
  next
    case False
    with 1 have IH: "digits_value (digits (n div 10)) = n div 10" by simp
    have "digits_value (digits n) = 10 * digits_value (digits (n div 10)) + n mod 10"
      using False
      by (subst digits.simps)
         (simp add: digits_value_def is_digit_digit_char digit_val_digit_char)
    with IH show ?thesis by simp
  qed
qed

lemma digit_groups_all_digit:
  "\<forall>c\<in>set s. is_digit c \<Longrightarrow> digit_groups b s = (b \<or> s \<noteq> [])"
  by (induction s arbitrary: b) auto

lemma is_digit_not_space: "is_digit c \<Longrightarrow> \<not> is_space c"
  by (auto simp: is_digit_def is_space_def)

lemma strip_id: "s \<noteq> [] \<Longrightarrow> \<not> is_space (hd s) \<Longrightarrow> \<not> is_space (last s) \<Longrightarrow> strip s = s"
proof -
  assume a: "s \<noteq> []" "\<not> is_space (hd s)" "\<not> is_space (last s)"
  then have "dropWhile is_space s = s" by (cases s) auto
  moreover from a have "dropWhile is_space (rev s) = rev s"
    by (cases "rev s") (auto simp: last_rev hd_rev dest: arg_cong[where f=hd])
  ultimately show ?thesis by (simp add: strip_def)
qed

lemma hd_last_digits: "is_digit (hd (digits n))" "is_digit (last (digits n))"
  using digits_nonempty[of n] digits_all_digit[of "hd (digits n)" n]
    digits_all_digit[of "last (digits n)" n] by simp_all

lemma strip_digits: "strip (digits n) = digits n"
  by (rule strip_id) (simp_all add: digits_nonempty is_digit_not_space hd_last_digits)

lemma hd_digits_not_sign: "hd (digits n) \<noteq> CHR ''-''" "hd (digits n) \<noteq> CHR ''+''"
  using hd_last_digits(1)[of n] by (auto simp: is_digit_def)

lemma digit_groups_digits: "digit_groups b (digits n)"
  by (simp add: digit_groups_all_digit[OF digits_Ball] digits_nonempty)

lemma py_int_digits: "py_int (digits n) = Inr (int n)"
  by (simp add: py_int_def strip_digits hd_digits_not_sign digits_nonempty
        digit_groups_digits digits_value_digits)

lemma strip_minus_digits: "strip (CHR ''-'' # digits n) = CHR ''-'' # digits n"
proof (rule strip_id)
  show "\<not> is_space (hd (CHR ''-'' # digits n))" by (simp add: is_space_def)
  show "\<not> is_space (last (CHR ''-'' # digits n))"
    by (simp add: digits_nonempty is_digit_not_space hd_last_digits)
qed simp

lemma py_int_minus_digits: "py_int (CHR ''-'' # digits n) = Inr (- int n)"
  unfolding py_int_def strip_minus_digits
  by (simp add: digit_groups_digits digits_value_digits)

lemma py_int_str_int: "py_int (str_int i) = Inr i"
  by (simp add: str_int_def py_int_digits py_int_minus_digits)

lemma str_int_inj:
  assumes "str_int i = str_int j"
  shows "i = j"
proof -
  have "(Inr i :: error + int) = py_int (str_int i)" by (simp only: py_int_str_int)
  also have "\<dots> = py_int (str_int j)" by (simp only: assms)
  also have "\<dots> = Inr j" by (simp only: py_int_str_int)
  finally show ?thesis by (simp only: sum.inject)
qed

lemma str_int_chars: "c \<in> set (str_int i) \<Longrightarrow> is_digit c \<or> c = CHR ''-''"
  by (auto simp: str_int_def digits_all_digit split: if_splits)

lemma str_int_no_underscore: "CHR ''_'' \<notin> set (str_int i)"
  using str_int_chars[of "CHR ''_''" i] by (auto simp: is_digit_def)

lemma str_int_no_dot: "CHR ''.'' \<notin> set (str_int i)"
  using str_int_chars[of "CHR ''.''" i] by (auto simp: is_digit_def)

lemma split_nonempty: "split sep s \<noteq> []"
  by (induction s) (auto split: list.splits)

lemma split_Cons:
  "split sep (c # cs) =
     (if c = sep then [] # split sep cs else (c # hd (split sep cs)) # tl (split sep cs))"
  using split_nonempty[of sep cs] by (cases "split sep cs") simp_all

lemma hd_split: "hd (split sep s) = takeWhile (\<lambda>c. c \<noteq> sep) s"
  by (induction s) (simp_all add: split_Cons del: split.simps(2))

lemma split_append_sep: "split sep (xs @ sep # ys) = split sep xs @ split sep ys"
  by (induction xs) (simp_all add: split_Cons split_nonempty del: split.simps(2))

lemma split_no_sep: "sep \<notin> set zs \<Longrightarrow> split sep zs = [zs]"
  by (induction zs) auto

lemma last_split_no_sep: "sep \<notin> set zs \<Longrightarrow> last (split sep zs) = zs"
  by (simp add: split_no_sep)

lemma last_split_append: "sep \<notin> set ys \<Longrightarrow> last (split sep (xs @ sep # ys)) = ys"
  by (simp add: split_append_sep split_no_sep)

lemma step_segment_screenshot_filename:
  "step_segment (screenshot_filename a n) = str_int n"
proof -
  have "CHR ''_'' \<notin> set (str_int n @ ''.png'')"
    using str_int_no_underscore[of n] by simp
  then have "last (split CHR ''_'' ((''screenshot_'' @ a) @ CHR ''_'' # (str_int n @ ''.png''))) = str_int n @ ''.png''"
    by (rule last_split_append)
  then have "last (split CHR ''_'' (screenshot_filename a n)) = str_int n @ ''.png''"
    by (simp add: screenshot_filename_def)
  moreover have "takeWhile (\<lambda>c. c \<noteq> CHR ''.'') (str_int n @ ''.png'') = str_int n"
    using str_int_no_dot[of n] by (simp add: takeWhile_append)
  ultimately show ?thesis by (simp add: step_segment_def hd_split)
qed

lemma append_sep_inj:
  fixes c :: char
  assumes "xs @ c # ys = xs' @ c # ys'" "c \<notin> set ys" "c \<notin> set ys'"
  shows "xs = xs' \<and> ys = ys'"
proof -
  have "last (split c (xs @ c # ys)) = ys" "last (split c (xs' @ c # ys')) = ys'"
    using assms(2,3) by (simp_all add: last_split_append)
  with assms(1) have "ys = ys'" by simp
  with assms(1) show ?thesis by simp
qed

lemma conversation_filename_inj:
  "conversation_filename a n = conversation_filename a' n' \<Longrightarrow> a = a' \<and> n = n'"
proof -
  assume "conversation_filename a n = conversation_filename a' n'"
  then have "(a @ CHR ''_'' # str_int n) @ ''.txt'' = (a' @ CHR ''_'' # str_int n') @ ''.txt''"
    by (simp add: conversation_filename_def)
  then have "a @ CHR ''_'' # str_int n = a' @ CHR ''_'' # str_int n'"
    by (simp only: append_same_eq)
  then have "a = a' \<and> str_int n = str_int n'"
    by (rule append_sep_inj) (rule str_int_no_underscore)+
  then show ?thesis by (auto dest: str_int_inj)
qed

lemma screenshot_filename_inj:
  "screenshot_filename a n = screenshot_filename a' n' \<Longrightarrow> a = a' \<and> n = n'"
proof -
  assume "screenshot_filename a n = screenshot_filename a' n'"
  then have "(a @ CHR ''_'' # str_int n) @ ''.png'' = (a' @ CHR ''_'' # str_int n') @ ''.png''"
    by (simp add: screenshot_filename_def)
  then have "a @ CHR ''_'' # str_int n = a' @ CHR ''_'' # str_int n'"
    by (simp only: append_same_eq)
  then have "a = a' \<and> str_int n = str_int n'"
    by (rule append_sep_inj) (rule str_int_no_underscore)+
  then show ?thesis by (auto dest: str_int_inj)
qed

section \<open>Facts about the operations\<close>

subsection \<open>Saving a screenshot\<close>

lemma nodes_logger [simp]: "nodes (logger lv m e w) = nodes w"
  and fault_logger [simp]: "fault (logger lv m e w) = fault w"
  and codec_logger [simp]: "codec (logger lv m e w) = codec w"
  and log_logger [simp]: "log (logger lv m e w) = log w @ [(lv, m, e)]"
  by (simp_all add: logger_def)

lemma lookup_logger [simp]: "lookup (logger lv m e w) p = lookup w p"
  by (simp add: lookup_def)

lemma save_step_screenshot_try_cases:
  obtains (mkdir_fails) e w1 where "mkdir (screenshots_dir self) w = (Inl e, w1)"
      "save_step_screenshot_try self payload n w = (Inl e, w1)"
  | (decode_fails) e w1 where "mkdir (screenshots_dir self) w = (Inr (), w1)"
      "b64decode payload = Inl e"
      "save_step_screenshot_try self payload n w = (Inl e, w1)"
  | (write_fails) e w1 w2 d where "mkdir (screenshots_dir self) w = (Inr (), w1)"
      "b64decode payload = Inr d"
      "write_bytes (path_div (screenshots_dir self) (screenshot_filename (agent_id self) n)) d w1 = (Inl e, w2)"
      "save_step_screenshot_try self payload n w = (Inl e, w2)"
  | (saved) w1 w2 d where "mkdir (screenshots_dir self) w = (Inr (), w1)"
      "b64decode payload = Inr d"
      "write_bytes (path_div (screenshots_dir self) (screenshot_filename (agent_id self) n)) d w1 = (Inr (), w2)"
      "save_step_screenshot_try self payload n w =
         (Inr (str_path (path_div (screenshots_dir self) (screenshot_filename (agent_id self) n))),
          logger DEBUG (''Screenshot saved: '' @ str_path (path_div (screenshots_dir self) (screenshot_filename (agent_id self) n))) None w2)"
proof -
  obtain r1 w1 where m: "mkdir (screenshots_dir self) w = (r1, w1)" by (cases "mkdir (screenshots_dir self) w")
  show thesis
  proof (cases r1)
    case (Inl e)
    with m show thesis by (intro mkdir_fails[of e w1]) (simp_all add: save_step_screenshot_try_def)
  next
    case (Inr u)
    with m have m': "mkdir (screenshots_dir self) w = (Inr (), w1)" by simp
    show thesis
    proof (cases "b64decode payload")
      case (Inl e)
      with m' show thesis by (intro decode_fails[of w1 e]) (simp_all add: save_step_screenshot_try_def Let_def)
    next
      case d: (Inr d)
      obtain r2 w2 where wr: "write_bytes (path_div (screenshots_dir self) (screenshot_filename (agent_id self) n)) d w1 = (r2, w2)"
        by (cases "write_bytes (path_div (screenshots_dir self) (screenshot_filename (agent_id self) n)) d w1")
      show thesis
      proof (cases r2)
        case (Inl e)
        with m' d wr show thesis
          by (intro write_fails[of w1 d e w2]) (simp_all add: save_step_screenshot_try_def Let_def)
      next
        case (Inr u2)
        with m' d wr show thesis
          by (intro saved[of w1 d w2]) (simp_all add: save_step_screenshot_try_def Let_def)
      qed
    qed
  qed
qed

lemma save_step_screenshot_total:
  "\<exists>r w'. save_step_screenshot self bss n w = (Inr r, w')"
  by (cases "save_step_screenshot_try self (the (screenshot bss)) n w")
     (auto simp: save_step_screenshot_def split: option.splits sum.splits)

lemma save_step_screenshot_failure:
  assumes "screenshot bss = Some payload" "payload \<noteq> []"
    "save_step_screenshot_try self payload n w = (Inl e, w')"
  shows "save_step_screenshot self bss n w =
    (Inr None, logger WARNING (''Failed to save screenshot for step '' @ str_int n @ '': '') (Some e) w')"
  using assms by (simp add: save_step_screenshot_def)

lemma save_step_screenshot_success:
  assumes "screenshot bss = Some payload" "payload \<noteq> []"
    "save_step_screenshot_try self payload n w = (Inr p, w')"
  shows "save_step_screenshot self bss n w = (Inr (Some p), w')"
  using assms by (simp add: save_step_screenshot_def)

lemma save_step_screenshot_absent:
  assumes "screenshot bss = None \<or> screenshot bss = Some []"
  shows "save_step_screenshot self bss n w =
    (Inr None, logger DEBUG (''No screenshot available for step '' @ str_int n) None w)"
  using assms by (auto simp: save_step_screenshot_def)

lemma open_w_ok_parts: "open_w p w = (Inr (), w') \<Longrightarrow> parts p \<noteq> []"
  by (auto simp: open_w_def lookup_def parent_def split: option.splits node.splits if_splits)

lemma write_bytes_lookup:
  assumes "write_bytes p d w = (Inr (), w')"
  shows "lookup w' p = Some (File d)"
proof -
  from assms obtain w1 where o: "open_w p w = (Inr (), w1)"
    and w': "w' = w1\<lparr>nodes := AList.update p (File d) (nodes w1)\<rparr>"
    by (auto simp: write_bytes_def split: prod.splits sum.splits)
  from o have "parts p \<noteq> []" by (rule open_w_ok_parts)
  with w' show ?thesis by (simp add: lookup_def update_conv')
qed

lemma str_int_no_slash: "CHR ''/'' \<notin> set (str_int i)"
  using str_int_chars[of "CHR ''/''" i] by (auto simp: is_digit_def)

lemma name_parts_single:
  assumes "CHR ''/'' \<notin> set s" "s \<noteq> []" "s \<noteq> ''.''"
  shows "name_parts s = [s]" "name_anchor s = []"
proof -
  from assms(1) show "name_parts s = [s]"
    using assms(2,3) by (simp add: name_parts_def split_no_sep)
  from assms(1,2) show "name_anchor s = []"
    by (cases s) (auto simp: name_anchor_def startswith_def)
qed

lemma screenshot_filename_no_slash:
  "CHR ''/'' \<notin> set aid \<Longrightarrow> CHR ''/'' \<notin> set (screenshot_filename aid n)"
  by (simp add: screenshot_filename_def str_int_no_slash)

lemma screenshot_filename_not_trivial:
  "screenshot_filename aid n \<noteq> []" "screenshot_filename aid n \<noteq> ''.''"
  by (simp_all add: screenshot_filename_def)

lemma path_div_single:
  assumes "CHR ''/'' \<notin> set s" "s \<noteq> []" "s \<noteq> ''.''"
  shows "path_div d s = d\<lparr>parts := parts d @ [s]\<rparr>"
  using name_parts_single[OF assms] by (simp add: path_div_def)

lemma parent_name_path_div:
  assumes "CHR ''/'' \<notin> set s" "s \<noteq> []" "s \<noteq> ''.''"
  shows "parent (path_div d s) = d" "name (path_div d s) = s" "parts (path_div d s) \<noteq> []"
  by (simp_all add: path_div_single[OF assms] parent_def name_def)

subsection \<open>Sorting and writing the index\<close>

lemma step_key_error: "step_key x = Inl e \<Longrightarrow> e = ValueError"
  by (auto simp: step_key_def py_int_def Let_def split: if_splits)

lemma step_key_number: "step_key x = Inr k \<Longrightarrow> step_number_of x = k"
  by (simp add: step_number_of_def)

lemma sort_keys_Inr:
  "sort_keys xs = Inr ks \<Longrightarrow> ks = map step_number_of xs \<and> (\<forall>x\<in>set xs. step_key x = Inr (step_number_of x))"
  by (induction xs arbitrary: ks) (auto simp: step_number_of_def split: sum.splits)

lemma sort_keys_Inl:
  "sort_keys xs = Inl e \<Longrightarrow> \<exists>x\<in>set xs. step_key x = Inl e"
  by (induction xs) (auto split: sum.splits)

lemma sort_keys_fails:
  "x \<in> set xs \<Longrightarrow> step_key x = Inl e \<Longrightarrow> sort_keys xs = Inl ValueError"
proof (induction xs)
  case Nil
  then show ?case by simp
next
  case (Cons y ys)
  show ?case
  proof (cases "step_key y")
    case (Inl e')
    then show ?thesis by (simp add: step_key_error)
  next
    case (Inr k)
    with Cons have "sort_keys ys = Inl ValueError" by auto
    with Inr show ?thesis by simp
  qed
qed

lemma insort_key_decorated:
  "insort_key fst (f x, x) (map (\<lambda>y. (f y, y)) ys) = map (\<lambda>y. (f y, y)) (insort_key f x ys)"
  by (induction ys) auto

lemma sort_key_decorated:
  "sort_key fst (map (\<lambda>y. (f y, y)) xs) = map (\<lambda>y. (f y, y)) (sort_key f xs)"
  by (induction xs) (simp_all add: insort_key_decorated)

lemma zip_map_self: "zip (map f xs) xs = map (\<lambda>y. (f y, y)) xs"
  by (induction xs) auto

lemma sort_by_step_Inr:
  assumes "sort_by_step xs = Inr ys"
  shows "ys = sort_key step_number_of xs" "\<forall>x\<in>set xs. step_key x = Inr (step_number_of x)"
proof -
  from assms obtain ks where ks: "sort_keys xs = Inr ks" and ys: "ys = map snd (sort_key fst (zip ks xs))"
    by (auto simp: sort_by_step_def split: sum.splits)
  from ks have k: "ks = map step_number_of xs" and "\<forall>x\<in>set xs. step_key x = Inr (step_number_of x)"
    by (auto dest: sort_keys_Inr)
  then show "\<forall>x\<in>set xs. step_key x = Inr (step_number_of x)" by blast
  from ys k show "ys = sort_key step_number_of xs"
    by (simp add: zip_map_self sort_key_decorated comp_def)
qed

lemma sort_by_step_Inl:
  "sort_by_step xs = Inl e \<Longrightarrow> \<exists>x\<in>set xs. step_key x = Inl e"
  by (auto simp: sort_by_step_def dest: sort_keys_Inl split: sum.splits)

lemma sort_by_step_fails:
  "x \<in> set xs \<Longrightarrow> step_key x = Inl e \<Longrightarrow> sort_by_step xs = Inl ValueError"
  by (simp add: sort_by_step_def sort_keys_fails)

lemma foldl_append_lines:
  "foldl (\<lambda>content x. content @ [g x]) acc xs = acc @ map g xs"
  by (induction xs arbitrary: acc) simp_all

lemma index_content_lines: "index_content aid files = index_lines aid files"
  by (simp add: index_content_def index_lines_def foldl_append_lines)

lemma iterdir_Inr_exists: "iterdir p w = Inr paths \<Longrightarrow> exists p w"
  by (auto simp: iterdir_def exists_def split: option.splits node.splits)

lemma open_w_codec: "open_w p w = (r, w') \<Longrightarrow> codec w' = codec w"
  by (auto simp: open_w_def split: option.splits node.splits)

lemma write_text_lookup:
  assumes "write_text p t enc w = (Inr (), w')"
  shows "\<exists>b. codec w enc t = Inr b \<and> lookup w' p = Some (File b)"
proof -
  from assms obtain w1 b where o: "open_w p w = (Inr (), w1)"
    and c: "codec w1 enc t = Inr b"
    and w': "w' = w1\<lparr>nodes := AList.update p (File b) (nodes w1)\<rparr>"
    by (auto simp: write_text_def split: prod.splits sum.splits)
  from o have "parts p \<noteq> []" by (rule open_w_ok_parts)
  with w' have "lookup w' p = Some (File b)" by (simp add: lookup_def update_conv')
  with c open_w_codec[OF o] show ?thesis by simp
qed

text \<open>What a rebuild that finds screenshots does.\<close>

lemma create_screenshot_index_try_selected:
  assumes "iterdir (screenshots_dir self) w = Inr paths"
    "select_screenshots (agent_id self) paths = files" "files \<noteq> []"
  shows "create_screenshot_index_try self w =
    (case sort_by_step files of
       Inl e \<Rightarrow> (Inl e, w)
     | Inr sorted_files \<Rightarrow>
        (case write_text (path_div (screenshots_dir self) ''index.md'')
                (index_text (agent_id self) sorted_files) None w of
           (Inl e, w') \<Rightarrow> (Inl e, w')
         | (Inr _, w') \<Rightarrow>
            (Inr (), logger INFO (''Screenshot index created: ''
                 @ str_path (path_div (screenshots_dir self) ''index.md'')) None w')))"
  using assms iterdir_Inr_exists[OF assms(1)]
  by (simp add: create_screenshot_index_try_def Let_def index_content_lines index_text_def
      split: sum.splits)

subsection \<open>A saved screenshot is listed\<close>

lemma nat_one_plus_int: "nat (1 + int k) = Suc k"
  by simp

lemma suffix_png: "b \<noteq> [] \<Longrightarrow> suffix (b @ ''.png'') = ''.png''"
  by (cases b) (simp_all add: suffix_def rfind_dot_def Let_def nat_one_plus_int)

lemma suffix_screenshot_filename: "suffix (screenshot_filename aid n) = ''.png''"
proof -
  have "suffix ((''screenshot_'' @ aid @ ''_'' @ str_int n) @ ''.png'') = ''.png''"
    by (rule suffix_png) simp
  then show ?thesis by (simp add: screenshot_filename_def)
qed

lemma startswith_screenshot_filename:
  "startswith (screenshot_filename aid n) (''screenshot_'' @ aid @ ''_'')"
  by (simp add: startswith_def screenshot_filename_def)

lemma select_screenshots_member:
  assumes "q \<in> set paths" "name q = screenshot_filename aid n"
  shows "screenshot_filename aid n \<in> set (select_screenshots aid paths)"
proof -
  from assms have "q \<in> set (filter (\<lambda>p. suffix (name p) = ''.png''
      \<and> startswith (name p) (''screenshot_'' @ aid @ ''_'')) paths)"
    using suffix_screenshot_filename[of aid n] startswith_screenshot_filename[of aid n]
    by simp
  then have "name q \<in> set (select_screenshots aid paths)"
    unfolding select_screenshots_def by (simp only: set_map image_eqI)
  with assms(2) show ?thesis by simp
qed

lemma iterdir_member:
  assumes "iterdir p w = Inr paths" "lookup w q = Some v" "parts q \<noteq> []" "parent q = p"
  shows "q \<in> set paths"
proof -
  from assms(2,3) have "map_of (nodes w) q = Some v" by (simp add: lookup_def)
  then have "(q, v) \<in> set (nodes w)" by (rule map_of_SomeD)
  then have mem: "q \<in> set (map fst (nodes w))" by force
  from assms(1) have "paths = filter (\<lambda>x. parts x \<noteq> [] \<and> parent x = p) (map fst (nodes w))"
    by (auto simp: iterdir_def split: option.splits node.splits)
  with mem assms(3,4) show ?thesis by simp
qed

lemma open_w_parent: "open_w p w = (Inr (), w') \<Longrightarrow> lookup w (parent p) = Some Dir"
  by (auto simp: open_w_def split: option.splits node.splits)

lemma parent_neq: "parts p \<noteq> [] \<Longrightarrow> parent p \<noteq> p"
proof
  assume a: "parts p \<noteq> []" "parent p = p"
  then have "parts (parent p) = parts p" by simp
  then have b: "butlast (parts p) = parts p" by (simp add: parent_def)
  from a(1) obtain ys y where "parts p = ys @ [y]"
    by (cases "parts p" rule: rev_cases) auto
  with b show False by simp
qed

lemma write_bytes_parent:
  assumes "write_bytes p d w = (Inr (), w')"
  shows "lookup w' (parent p) = Some Dir"
proof -
  from assms obtain w1 where o: "open_w p w = (Inr (), w1)"
    and w': "w' = w1\<lparr>nodes := AList.update p (File d) (nodes w1)\<rparr>"
    by (auto simp: write_bytes_def split: prod.splits sum.splits)
  from o have pp: "parts p \<noteq> []" by (rule open_w_ok_parts)
  from o have l: "lookup w (parent p) = Some Dir" by (rule open_w_parent)
  from o have w1: "nodes w1 = AList.update p (File []) (nodes w)"
    by (auto simp: open_w_def split: option.splits node.splits)
  show ?thesis
  proof (cases "parts (parent p) = []")
    case True
    then show ?thesis by (simp add: lookup_def)
  next
    case False
    with l have "map_of (nodes w) (parent p) = Some Dir" by (simp add: lookup_def)
    with parent_neq[OF pp] have "map_of (nodes w') (parent p) = Some Dir"
      by (simp add: w' w1 update_conv')
    with False show ?thesis by (simp add: lookup_def)
  qed
qed

lemma save_step_screenshot_Some:
  assumes "save_step_screenshot self bss n w = (Inr (Some p), w1)"
  obtains payload d w' w2 where "screenshot bss = Some payload" "payload \<noteq> []"
    "b64decode payload = Inr d" "mkdir (screenshots_dir self) w = (Inr (), w')"
    "write_bytes (path_div (screenshots_dir self) (screenshot_filename (agent_id self) n)) d w' = (Inr (), w2)"
    "w1 = logger DEBUG (''Screenshot saved: '' @ str_path (path_div (screenshots_dir self) (screenshot_filename (agent_id self) n))) None w2"
    "p = str_path (path_div (screenshots_dir self) (screenshot_filename (agent_id self) n))"
proof -
  from assms obtain payload where pl: "screenshot bss = Some payload" "payload \<noteq> []"
    by (auto simp: save_step_screenshot_def split: option.splits if_splits)
  with assms have t: "save_step_screenshot_try self payload n w = (Inr p, w1)"
    by (auto simp: save_step_screenshot_def split: prod.splits sum.splits)
  show thesis
  proof (cases rule: save_step_screenshot_try_cases[of self w payload n])
    case (mkdir_fails e w1)
    with t show ?thesis by simp
  next
    case (decode_fails e w1)
    with t show ?thesis by simp
  next
    case (write_fails e w1 w2 d)
    with t show ?thesis by simp
  next
    case (saved w' w2 d)
    let ?q = "path_div (screenshots_dir self) (screenshot_filename (agent_id self) n)"
    have "(Inr p :: error + string, w1)
        = (Inr (str_path ?q), logger DEBUG (''Screenshot saved: '' @ str_path ?q) None w2)"
      by (rule trans[OF sym[OF t] saved(4)])
    then have "p = str_path ?q" "w1 = logger DEBUG (''Screenshot saved: '' @ str_path ?q) None w2"
      by simp_all
    with pl saved(1,2,3) show ?thesis by (intro that[of payload d w' w2])
  qed
qed

lemma create_screenshot_index_written:
  assumes "iterdir (screenshots_dir self) w = Inr paths"
    "select_screenshots (agent_id self) paths = files" "files \<noteq> []"
    "fst (create_screenshot_index_try self w) = Inr ()"
  shows "\<exists>bytes.
          codec w None (index_text (agent_id self) (sort_key step_number_of files)) = Inr bytes
          \<and> lookup (snd (create_screenshot_index self w))
                (path_div (screenshots_dir self) ''index.md'') = Some (File bytes)"
    and "\<forall>x\<in>set files. step_key x = Inr (step_number_of x)"
proof -
  let ?ip = "path_div (screenshots_dir self) ''index.md''"
  from assms have t: "create_screenshot_index_try self w =
    (case sort_by_step files of
       Inl e \<Rightarrow> (Inl e, w)
     | Inr sorted_files \<Rightarrow>
        (case write_text ?ip (index_text (agent_id self) sorted_files) None w of
           (Inl e, w') \<Rightarrow> (Inl e, w')
         | (Inr _, w') \<Rightarrow>
            (Inr (), logger INFO (''Screenshot index created: '' @ str_path ?ip) None w')))"
    by (simp add: create_screenshot_index_try_selected[where paths = paths])
  with assms(4) obtain sorted_files where s: "sort_by_step files = Inr sorted_files"
    by (cases "sort_by_step files") auto
  then have sf: "sorted_files = sort_key step_number_of files"
    and keys: "\<forall>x\<in>set files. step_key x = Inr (step_number_of x)"
    by (auto dest: sort_by_step_Inr)
  from keys show "\<forall>x\<in>set files. step_key x = Inr (step_number_of x)" .
  obtain r w' where wr: "write_text ?ip (index_text (agent_id self) sorted_files) None w = (r, w')"
    by (cases "write_text ?ip (index_text (agent_id self) sorted_files) None w")
  with t s assms(4) have r: "r = Inr ()" by (cases r) auto
  with t s wr have "create_screenshot_index_try self w =
      (Inr (), logger INFO (''Screenshot index created: '' @ str_path ?ip) None w')"
    by simp
  then have c: "create_screenshot_index self w =
      (Inr (), logger INFO (''Screenshot index created: '' @ str_path ?ip) None w')"
    by (simp add: create_screenshot_index_def)
  from wr r obtain b where "codec w None (index_text (agent_id self) sorted_files) = Inr b"
    "lookup w' ?ip = Some (File b)"
    by (auto dest: write_text_lookup)
  with c sf show "\<exists>bytes.
          codec w None (index_text (agent_id self) (sort_key step_number_of files)) = Inr bytes
          \<and> lookup (snd (create_screenshot_index self w)) ?ip = Some (File bytes)"
    by simp
qed

lemma step_key_screenshot_filename: "step_key (screenshot_filename aid n) = Inr n"
  by (simp add: step_key_def step_segment_screenshot_filename py_int_str_int)

subsection \<open>The transcript and the conversation file\<close>

lemma join_Cons: "ys \<noteq> [] \<Longrightarrow> join sep (x # ys) = x @ sep @ join sep ys"
  by (cases ys) simp_all

lemma foldl_message_lines:
  "foldl (\<lambda>lines m. ((lines @ [a m]) @ [b m]) @ [[]]) acc ms
     = acc @ concat (map (\<lambda>m. [a m, b m, []]) ms)"
  by (induction ms arbitrary: acc) simp_all

lemma join_message_lines:
  "rest \<noteq> [] \<Longrightarrow>
   join sep (concat (map (\<lambda>m. [a m, b m, []]) ms) @ rest)
     = concat (map (\<lambda>m. a m @ sep @ b m @ sep @ sep) ms) @ join sep rest"
  by (induction ms) (simp_all add: join_Cons)

lemma transcript_join:
  "join [CHR 0x0A]
     ([''SCREENSHOT: screenshots/screenshot_'' @ aid @ ''_'' @ str_int n @ ''.png'', []]
      @ concat (map (\<lambda>m. ['' '' @ role m @ '' '', message_text m, []]) ms)
      @ ['' RESPONSE'', response_text])
   = transcript_text aid n ms response_text"
proof -
  have "join [CHR 0x0A] (concat (map (\<lambda>m. ['' '' @ role m @ '' '', message_text m, []]) ms)
            @ ['' RESPONSE'', response_text])
        = concat (map (\<lambda>m. ('' '' @ role m @ '' '') @ [CHR 0x0A] @ message_text m @ [CHR 0x0A] @ [CHR 0x0A]) ms)
          @ join [CHR 0x0A] ['' RESPONSE'', response_text]"
    by (rule join_message_lines) simp
  then show ?thesis
    by (simp add: transcript_text_def screenshot_filename_def join_Cons)
qed

lemma join_nonempty: "x \<in> set xs \<Longrightarrow> x \<noteq> [] \<Longrightarrow> join sep xs \<noteq> []"
  by (induction sep xs rule: join.induct) auto

lemma name_parts_conversation_filename:
  "\<exists>x\<in>set (name_parts (conversation_filename aid n)). x \<noteq> []"
proof -
  let ?fn = "conversation_filename aid n"
  let ?h = "hd (split CHR ''/'' ?fn)"
  have "?h = takeWhile (\<lambda>c. c \<noteq> CHR ''/'') ?fn" by (rule hd_split)
  then have h: "?h \<noteq> []" "?h \<noteq> ''.''"
    by (simp_all add: conversation_filename_def)
  have "?h \<in> set (split CHR ''/'' ?fn)"
    by (rule hd_in_set) (rule split_nonempty)
  with h have "?h \<in> set (name_parts ?fn)" by (simp add: name_parts_def)
  with h(1) show ?thesis by blast
qed

lemma name_anchor_conversation_filename: "name_anchor (conversation_filename aid n) = []"
  by (simp add: name_anchor_def startswith_def conversation_filename_def)

lemma str_path_conversation_nonempty:
  "str_path (path_div d (conversation_filename aid n)) \<noteq> []"
proof -
  obtain x where x: "x \<in> set (name_parts (conversation_filename aid n))" "x \<noteq> []"
    using name_parts_conversation_filename by blast
  then have "x \<in> set (parts d @ name_parts (conversation_filename aid n))" by simp
  then have "join ''/'' (parts d @ name_parts (conversation_filename aid n)) \<noteq> []"
    using x(2) by (rule join_nonempty)
  moreover from x(1) have "parts d @ name_parts (conversation_filename aid n) \<noteq> []" by auto
  ultimately show ?thesis
    by (simp add: str_path_def path_div_def name_anchor_conversation_filename)
qed

subsection \<open>The example worlds\<close>

lemma example_manager_fields:
  "agent_id example_manager = ''A1''"
  "conversation_dir example_manager = \<lparr>anchor = [], parts = [''out'']\<rparr>"
  "screenshots_dir example_manager = \<lparr>anchor = [], parts = [''out'', ''screenshots'']\<rparr>"
  by (simp_all add: example_manager_def ScreenshotManager_def Path_def path_div_def
      name_anchor_def name_parts_def startswith_def)

lemma filename_A1_3: "screenshot_filename ''A1'' 3 = ''screenshot_A1_3.png''"
  by code_simp

lemma shot_path:
  "CHR ''/'' \<notin> set nm \<Longrightarrow> nm \<noteq> [] \<Longrightarrow> nm \<noteq> ''.'' \<Longrightarrow>
   path_div (screenshots_dir example_manager) nm = shot nm"
  by (simp add: path_div_single example_manager_fields shot_def)

lemma str_path_shot: "str_path (shot nm) = ''out/screenshots/'' @ nm"
  by (simp add: str_path_def shot_def)

lemma mkdir_screenshots_fresh:
  "mkdir (screenshots_dir example_manager) fresh_world = (Inr (), world_with [])"
  by (simp add: example_manager_fields mkdir.simps mkdir_leaf_def os_mkdir_def lookup_def
      parent_def fresh_world_def is_dir_def world_with_def)

lemma update_absent: "k \<notin> fst ` set al \<Longrightarrow> AList.update k v al = al @ [(k, v)]"
  by (induction al) auto

lemma update_last: "k \<notin> fst ` set al \<Longrightarrow> AList.update k v' (al @ [(k, v)]) = al @ [(k, v')]"
  by (induction al) auto

lemma shot_eq [simp]: "shot a = shot b \<longleftrightarrow> a = b"
  by (simp add: shot_def)

lemma shot_simps [simp]:
  "parts (shot nm) \<noteq> []" "parent (shot nm) = \<lparr>anchor = [], parts = [''out'', ''screenshots'']\<rparr>"
  "name (shot nm) = nm"
  "shot nm \<noteq> \<lparr>anchor = [], parts = [''out'']\<rparr>"
  "shot nm \<noteq> \<lparr>anchor = [], parts = [''out'', ''screenshots'']\<rparr>"
  by (simp_all add: shot_def parent_def name_def)

lemma world_with_fields [simp]:
  "fault (world_with files) = (\<lambda>_. None)" "codec (world_with files) = (\<lambda>_ s. Inr s)"
  "log (world_with files) = []"
  by (simp_all add: world_with_def fresh_world_def)

lemma map_of_shots:
  "map_of (map (\<lambda>(nm, bytes). (shot nm, File bytes)) files) (shot nm) = map_option File (map_of files nm)"
  by (induction files) auto

lemma shot_keys: "fst ` set (map (\<lambda>(nm, bytes). (shot nm, File bytes)) files) = shot ` fst ` set files"
  by (induction files) auto

lemma lookup_world_with_shot:
  "lookup (world_with files) (shot nm) = map_option File (map_of files nm)"
  by (simp add: lookup_def world_with_def map_of_shots)

lemma lookup_world_with_dir:
  "lookup (world_with files) \<lparr>anchor = [], parts = [''out'', ''screenshots'']\<rparr> = Some Dir"
  by (simp add: lookup_def world_with_def)

lemma world_with_update:
  "nm \<notin> fst ` set files \<Longrightarrow>
   (world_with files)\<lparr>nodes := AList.update (shot nm) (File d) (nodes (world_with files))\<rparr>
     = world_with (files @ [(nm, d)])"
proof -
  assume a: "nm \<notin> fst ` set files"
  then have "shot nm \<notin> fst ` set (nodes (world_with files))"
    by (force simp: world_with_def shot_keys)
  then have "AList.update (shot nm) (File d) (nodes (world_with files))
      = nodes (world_with files) @ [(shot nm, File d)]"
    by (rule update_absent)
  then show ?thesis by (simp add: world_with_def)
qed

lemma world_with_update_last:
  "nm \<notin> fst ` set files \<Longrightarrow>
   (world_with (files @ [(nm, d)]))\<lparr>nodes :=
       AList.update (shot nm) (File d') (nodes (world_with (files @ [(nm, d)])))\<rparr>
     = world_with (files @ [(nm, d')])"
proof -
  assume a: "nm \<notin> fst ` set files"
  let ?al = "nodes (world_with files)"
  from a have "shot nm \<notin> fst ` set ?al"
    by (force simp: world_with_def shot_keys)
  then have "AList.update (shot nm) (File d') (?al @ [(shot nm, File d)]) = ?al @ [(shot nm, File d')]"
    by (rule update_last)
  moreover have "nodes (world_with (files @ [(nm, d)])) = ?al @ [(shot nm, File d)]"
    by (simp add: world_with_def)
  ultimately show ?thesis by (simp add: world_with_def)
qed

lemma map_of_absent: "nm \<notin> fst ` set files \<Longrightarrow> map_of files nm = None"
  by (simp add: map_of_eq_None_iff)

lemma open_w_shot_new:
  "nm \<notin> fst ` set files \<Longrightarrow>
   open_w (shot nm) (world_with files) = (Inr (), world_with (files @ [(nm, [])]))"
  by (simp add: open_w_def lookup_world_with_shot lookup_world_with_dir map_of_absent
      world_with_update)

lemma write_bytes_shot_new:
  "nm \<notin> fst ` set files \<Longrightarrow>
   write_bytes (shot nm) d (world_with files) = (Inr (), world_with (files @ [(nm, d)]))"
  by (simp add: write_bytes_def open_w_shot_new world_with_update_last)

lemma write_text_shot_new:
  "nm \<notin> fst ` set files \<Longrightarrow>
   write_text (shot nm) t enc (world_with files) = (Inr (), world_with (files @ [(nm, t)]))"
  by (simp add: write_text_def open_w_shot_new world_with_update_last)

lemma iterdir_world_with:
  "iterdir \<lparr>anchor = [], parts = [''out'', ''screenshots'']\<rparr> (world_with files)
     = Inr (map (\<lambda>(nm, bytes). shot nm) files)"
proof -
  have "filter (\<lambda>q. parts q \<noteq> [] \<and> parent q = \<lparr>anchor = [], parts = [''out'', ''screenshots'']\<rparr>)
          (map fst (map (\<lambda>(nm, bytes). (shot nm, File bytes)) files))
        = map (\<lambda>(nm, bytes). shot nm) files"
    by (induction files) auto
  then show ?thesis
    by (simp add: iterdir_def lookup_world_with_dir) (simp add: world_with_def parent_def)
qed

lemma select_screenshots_shots:
  "select_screenshots aid (map (\<lambda>(nm, bytes). shot nm) files)
     = filter (\<lambda>nm. suffix nm = ''.png'' \<and> startswith nm (''screenshot_'' @ aid @ ''_'')) (map fst files)"
  by (induction files) (auto simp: select_screenshots_def)

text \<open>Saving a first screenshot in the fresh world.\<close>

lemma save_step_screenshot_fresh:
  assumes "payload \<noteq> []" "b64decode payload = Inr d"
  shows "save_step_screenshot example_manager \<lparr>screenshot = Some payload\<rparr> 3 fresh_world
    = (Inr (Some ''out/screenshots/screenshot_A1_3.png''),
       logger DEBUG ''Screenshot saved: out/screenshots/screenshot_A1_3.png'' None
         (world_with [(''screenshot_A1_3.png'', d)]))"
proof -
  have p: "path_div (screenshots_dir example_manager) (screenshot_filename (agent_id example_manager) 3)
      = shot ''screenshot_A1_3.png''"
    by (simp add: example_manager_fields(1) filename_A1_3 shot_path)
  have "write_bytes (shot ''screenshot_A1_3.png'') d (world_with []) = (Inr (), world_with ([] @ [(''screenshot_A1_3.png'', d)]))"
    by (rule write_bytes_shot_new) simp
  then have "save_step_screenshot_try example_manager payload 3 fresh_world
    = (Inr ''out/screenshots/screenshot_A1_3.png'',
       logger DEBUG ''Screenshot saved: out/screenshots/screenshot_A1_3.png'' None
         (world_with [(''screenshot_A1_3.png'', d)]))"
    using assms(2)
    by (simp add: save_step_screenshot_try_def mkdir_screenshots_fresh p str_path_shot)
  with assms(1) show ?thesis by (simp add: save_step_screenshot_def)
qed

subsection \<open>Runs in the example worlds\<close>

lemma str_int_3: "str_int 3 = ''3''"
  by code_simp

lemma b64decode_examples:
  "b64decode ''aGVsbG8='' = Inr ''hello''"
  "b64decode ''invalid'' = Inl BinasciiError"
  "b64decode ''!!!!'' = Inr []"
  "b64_index CHR ''!'' = None"
  by code_simp+

lemma path_A1_3:
  "path_div (screenshots_dir example_manager) (screenshot_filename (agent_id example_manager) 3)
      = shot ''screenshot_A1_3.png''"
  by (simp add: example_manager_fields(1) filename_A1_3 shot_path)

lemma select_A1_examples:
  "select_screenshots ''A1''
     (map (\<lambda>(nm, bytes). shot nm) [(''index.md'', ''old''), (''screenshot_B7_1.png'', ''hello'')]) = []"
  "select_screenshots ''A1''
     (map (\<lambda>(nm, bytes). shot nm) [(''screenshot_A1_10.png'', ''hello''), (''screenshot_A1_x.png'', ''zz'')])
     = [''screenshot_A1_10.png'', ''screenshot_A1_x.png'']"
  "select_screenshots ''A1''
     (map (\<lambda>(nm, bytes). shot nm) [(''screenshot_A1_10.png'', ''hello''), (''screenshot_A1_2.png'', ''hello'')])
     = [''screenshot_A1_10.png'', ''screenshot_A1_2.png'']"
  "select_screenshots ''A1''
     (map (\<lambda>(nm, bytes). shot nm) [(''screenshot_A1_3.png'', ''hello'')])
     = [''screenshot_A1_3.png'']"
  unfolding select_screenshots_shots by code_simp+

lemma step_key_examples:
  "step_key ''screenshot_A1_10.png'' = Inr 10"
  "step_key ''screenshot_A1_x.png'' = Inl ValueError"
  "step_key ''screenshot_A1_2.png'' = Inr 2"
  by code_simp+

lemma index_path_example:
  "path_div (screenshots_dir example_manager) ''index.md'' = shot ''index.md''"
  by (rule shot_path) simp_all

lemma sort_by_step_examples:
  "sort_by_step [''screenshot_A1_10.png'', ''screenshot_A1_2.png'']
     = Inr [''screenshot_A1_2.png'', ''screenshot_A1_10.png'']"
  "sort_by_step [''screenshot_A1_3.png''] = Inr [''screenshot_A1_3.png'']"
  by code_simp+

lemma index_text_example:
  "index_text ''A1'' [''screenshot_A1_2.png'', ''screenshot_A1_10.png'']
     = ''# Screenshot Index'' @ [CHR 0x0A, CHR 0x0A]
       @ ''Agent ID: A1'' @ [CHR 0x0A]
       @ ''Total Screenshots: 2'' @ [CHR 0x0A, CHR 0x0A]
       @ ''Step 2: screenshot_A1_2.png'' @ [CHR 0x0A]
       @ ''Step 10: screenshot_A1_10.png''"
  by code_simp

lemma create_screenshot_index_try_example:
  assumes "select_screenshots ''A1'' (map (\<lambda>(nm, bytes). shot nm) files) = names" "names \<noteq> []"
    "sort_by_step names = Inr sorted_names" "''index.md'' \<notin> fst ` set files"
  shows "create_screenshot_index_try example_manager (world_with files)
     = (Inr (), logger INFO ''Screenshot index created: out/screenshots/index.md'' None
                  (world_with (files @ [(''index.md'', index_text ''A1'' sorted_names)])))"
  using create_screenshot_index_try_selected[where self = example_manager and w = "world_with files"
      and paths = "map (\<lambda>(nm, bytes). shot nm) files" and files = names] assms
  by (simp add: example_manager_fields(1) index_path_example write_text_shot_new str_path_shot)
     (simp add: example_manager_fields iterdir_world_with)

lemma open_w_logger:
  "open_w p (logger lv m e w) = (fst (open_w p w), logger lv m e (snd (open_w p w)))"
  by (simp add: open_w_def logger_def lookup_def split: option.splits node.splits)

lemma write_text_logger:
  "fst (write_text p t enc (logger lv m e w)) = fst (write_text p t enc w)"
proof -
  obtain r w1 where o: "open_w p w = (r, w1)" by (cases "open_w p w")
  then show ?thesis
    by (cases r; cases "codec w1 enc t") (simp_all add: write_text_def open_w_logger)
qed

lemma iterdir_logger: "iterdir p (logger lv m e w) = iterdir p w"
  by (simp add: iterdir_def split: option.splits node.splits)

lemma exists_logger: "exists p (logger lv m e w) = exists p w"
  by (simp add: exists_def)

lemma create_screenshot_index_try_logger:
  "fst (create_screenshot_index_try self (logger lv m e w)) = fst (create_screenshot_index_try self w)"
proof -
  have "\<And>p t. fst (case write_text p t None (logger lv m e w) of
                  (Inl e, w') \<Rightarrow> (Inl e, w')
                | (Inr u, w') \<Rightarrow> (Inr (), logger INFO (''Screenshot index created: '' @ str_path p) None w'))
             = fst (case write_text p t None w of
                  (Inl e, w') \<Rightarrow> (Inl e, w')
                | (Inr u, w') \<Rightarrow> (Inr (), logger INFO (''Screenshot index created: '' @ str_path p) None w'))"
    subgoal for p t
      using write_text_logger[of p t None lv m e w]
      by (cases "write_text p t None (logger lv m e w)"; cases "write_text p t None w")
         (auto split: sum.splits)
    done
  then show ?thesis
    by (simp add: create_screenshot_index_try_def iterdir_logger exists_logger Let_def
        split: sum.splits)
qed

lemma transcript_example:
  "transcript_text ''A1'' 3
     [\<lparr>role = ''user'', message_text = ''hi''\<rparr>, \<lparr>role = ''assistant'', message_text = ''ok''\<rparr>]
     (json_dumps (JObject [(''action'', JString ''click'')]))
   = ''SCREENSHOT: screenshots/screenshot_A1_3.png'' @ [CHR 0x0A, CHR 0x0A]
     @ '' user '' @ [CHR 0x0A] @ ''hi'' @ [CHR 0x0A, CHR 0x0A]
     @ '' assistant '' @ [CHR 0x0A] @ ''ok'' @ [CHR 0x0A, CHR 0x0A]
     @ '' RESPONSE'' @ [CHR 0x0A]
     @ ''{'' @ [CHR 0x0A]
     @ ''  '' @ [CHR 0x22] @ ''action'' @ [CHR 0x22] @ '': '' @ [CHR 0x22] @ ''click'' @ [CHR 0x22]
     @ [CHR 0x0A] @ ''}''"
  by code_simp

lemma save_step_screenshot_decode_error:
  assumes "b64decode payload = Inl e"
  shows "fst (save_step_screenshot self \<lparr>screenshot = Some payload\<rparr> n w) = Inr None"
proof (cases "payload = []")
  case True
  then show ?thesis by (simp add: save_step_screenshot_absent)
next
  case False
  have "\<exists>e' w'. save_step_screenshot_try self payload n w = (Inl e', w')"
    using assms by (cases rule: save_step_screenshot_try_cases[of self w payload n]) auto
  with False show ?thesis by (auto simp: save_step_screenshot_failure)
qed

lemma conversation_path_example:
  "path_div (conversation_dir example_manager) (conversation_filename (agent_id example_manager) 3)
     = \<lparr>anchor = [], parts = [''out'', ''conversation_A1_3.txt'']\<rparr>"
proof -
  have "conversation_filename ''A1'' 3 = ''conversation_A1_3.txt''" by code_simp
  then show ?thesis
    by (simp add: example_manager_fields path_div_single)
qed

lemma mkdir_out_fresh:
  "mkdir \<lparr>anchor = [], parts = [''out'']\<rparr> fresh_world
     = (Inr (), fresh_world\<lparr>nodes := [(\<lparr>anchor = [], parts = [''out'']\<rparr>, Dir)]\<rparr>)"
  by (simp add: mkdir.simps os_mkdir_def lookup_def parent_def fresh_world_def)

lemma mkdir_out_is_file:
  "mkdir \<lparr>anchor = [], parts = [''out'']\<rparr>
       (fresh_world\<lparr>nodes := [(\<lparr>anchor = [], parts = [''out'']\<rparr>, File [])]\<rparr>)
     = (Inl FileExistsError, fresh_world\<lparr>nodes := [(\<lparr>anchor = [], parts = [''out'']\<rparr>, File [])]\<rparr>)"
  by (simp add: mkdir.simps os_mkdir_def lookup_def parent_def fresh_world_def is_dir_def)

lemma write_conversation_example:
  "fst (write_text \<lparr>anchor = [], parts = [''out'', ''conversation_A1_3.txt'']\<rparr> t enc
         (fresh_world\<lparr>nodes := [(\<lparr>anchor = [], parts = [''out'']\<rparr>, Dir)]\<rparr>)) = Inr ()"
  by (simp add: write_text_def open_w_def lookup_def parent_def fresh_world_def)

section \<open>The claims\<close>

text \<open>
C1. The transcript of a step is exactly the text the specification describes: the
  screenshot reference, a blank line, for each message in order its role between two
  spaces, its text and a blank line, the marker \<open> RESPONSE\<close> and the JSON text of what
  the response's \<open>model_dump_json(exclude_unset=True)\<close> returns, printed with an
  indentation of two spaces; one line feed between two lines and none at the end. When the
  response's method raises, formatting raises the same error. For a response built by
  \<open>BaseModel\<close> the JSON object holds the fields that were set and no other.
\<close>

theorem transcript_format:
  "format_conversation_with_screenshot_refs self messages resp n =
     (case model_dump_json resp True of
        Inl e \<Rightarrow> Inl e
      | Inr v \<Rightarrow> Inr (transcript_text (agent_id self) n messages (json_dumps v)))
   \<and> model_dump_json (BaseModel model_fields model_fields_set) True =
       Inr (JObject (filter (\<lambda>(k, v). k \<in> set model_fields_set) model_fields))"
proof
  have "\<And>v. join [CHR 0x0A]
     (foldl (\<lambda>lines m. ((lines @ ['' '' @ role m @ '' '']) @ [message_text m]) @ [[]])
        (([] @ [''SCREENSHOT: '' @ ''screenshots/screenshot_'' @ agent_id self @ ''_'' @ str_int n @ ''.png'']) @ [[]])
        messages @ ['' RESPONSE''] @ [json_dumps v])
     = transcript_text (agent_id self) n messages (json_dumps v)"
    unfolding foldl_message_lines using transcript_join[of "agent_id self" n messages]
    by simp
  then show "format_conversation_with_screenshot_refs self messages resp n =
     (case model_dump_json resp True of
        Inl e \<Rightarrow> Inl e
      | Inr v \<Rightarrow> Inr (transcript_text (agent_id self) n messages (json_dumps v)))"
    by (simp add: format_conversation_with_screenshot_refs_def Let_def split: sum.splits)
  show "model_dump_json (BaseModel model_fields model_fields_set) True =
       Inr (JObject (filter (\<lambda>(k, v). k \<in> set model_fields_set) model_fields))"
    by (simp add: BaseModel_def)
qed

text \<open>The example of the specification: two messages and a response of which only the field
  \<open>action\<close> was set.\<close>

theorem transcript_format_witness:
  "format_conversation_with_screenshot_refs example_manager
     [\<lparr>role = ''user'', message_text = ''hi''\<rparr>, \<lparr>role = ''assistant'', message_text = ''ok''\<rparr>]
     (BaseModel [(''action'', JString ''click''), (''memory'', JNull)] [''action'']) 3
   = Inr (''SCREENSHOT: screenshots/screenshot_A1_3.png'' @ [CHR 0x0A, CHR 0x0A]
     @ '' user '' @ [CHR 0x0A] @ ''hi'' @ [CHR 0x0A, CHR 0x0A]
     @ '' assistant '' @ [CHR 0x0A] @ ''ok'' @ [CHR 0x0A, CHR 0x0A]
     @ '' RESPONSE'' @ [CHR 0x0A]
     @ ''{'' @ [CHR 0x0A]
     @ ''  '' @ [CHR 0x22] @ ''action'' @ [CHR 0x22] @ '': '' @ [CHR 0x22] @ ''click'' @ [CHR 0x22]
     @ [CHR 0x0A] @ ''}'')"
  using transcript_format[where self = example_manager and n = 3
      and messages = "[\<lparr>role = ''user'', message_text = ''hi''\<rparr>, \<lparr>role = ''assistant'', message_text = ''ok''\<rparr>]"
      and resp = "BaseModel [(''action'', JString ''click''), (''memory'', JNull)] [''action'']"
      and model_fields = "[(''action'', JString ''click''), (''memory'', JNull)]"
      and model_fields_set = "[''action'']"]
    transcript_example
  by (simp add: example_manager_fields(1))

text \<open>
C2. \<open>save_step_screenshot\<close> never raises: for every input it returns a path or
  \<open>None\<close>. An error of the directory creation, of the decoder or of the write is turned
  into \<open>None\<close>; in particular a payload that the decoder rejects gives \<open>None\<close>. The
  decoder is lenient: it rejects a payload with a character beyond ASCII or with an
  incomplete group of alphabet characters, and skips any other character that is not in
  the base64 alphabet.
\<close>

theorem save_step_screenshot_never_raises:
  "(\<exists>r w'. save_step_screenshot self bss n w = (Inr r, w'))
   \<and> (screenshot bss = Some payload \<and>
        (fst (mkdir (screenshots_dir self) w) = Inl e
         \<or> b64decode payload = Inl e
         \<or> (\<exists>w1 d. mkdir (screenshots_dir self) w = (Inr (), w1) \<and> b64decode payload = Inr d
               \<and> fst (write_bytes (path_div (screenshots_dir self)
                         (screenshot_filename (agent_id self) n)) d w1) = Inl e))
       \<longrightarrow> fst (save_step_screenshot self bss n w) = Inr None)"
proof (intro conjI impI)
  show "\<exists>r w'. save_step_screenshot self bss n w = (Inr r, w')"
    by (rule save_step_screenshot_total)
next
  assume a: "screenshot bss = Some payload \<and>
        (fst (mkdir (screenshots_dir self) w) = Inl e
         \<or> b64decode payload = Inl e
         \<or> (\<exists>w1 d. mkdir (screenshots_dir self) w = (Inr (), w1) \<and> b64decode payload = Inr d
               \<and> fst (write_bytes (path_div (screenshots_dir self)
                         (screenshot_filename (agent_id self) n)) d w1) = Inl e))"
  show "fst (save_step_screenshot self bss n w) = Inr None"
  proof (cases "payload = []")
    case True
    with a show ?thesis by (simp add: save_step_screenshot_absent)
  next
    case False
    have "\<exists>e' w'. save_step_screenshot_try self payload n w = (Inl e', w')"
      using a by (cases rule: save_step_screenshot_try_cases[of self w payload n]) auto
    with a False show ?thesis by (auto simp: save_step_screenshot_failure)
  qed
qed

text \<open>A payload with seven alphabet characters: the decoder rejects it.\<close>

theorem save_step_screenshot_never_raises_witness:
  "b64decode ''invalid'' = Inl BinasciiError
   \<and> fst (save_step_screenshot example_manager \<lparr>screenshot = Some ''invalid''\<rparr> 3 fresh_world)
       = Inr None"
  using save_step_screenshot_never_raises[where self = example_manager and bss = "\<lparr>screenshot = Some ''invalid''\<rparr>"
      and n = 3 and w = fresh_world and payload = "''invalid''" and e = BinasciiError]
  by (simp add: b64decode_examples)

text \<open>Not every payload that is no base64 text gives \<open>None\<close>: the payload \<open>!!!!\<close> holds no
  character of the base64 alphabet, yet the decoder returns the empty byte string for it,
  an empty file is written and its path is returned.\<close>

theorem lenient_decoder_counterexample:
  "b64_index CHR ''!'' = None
   \<and> fst (save_step_screenshot example_manager \<lparr>screenshot = Some ''!!!!''\<rparr> 3 fresh_world)
       = Inr (Some ''out/screenshots/screenshot_A1_3.png'')
   \<and> lookup (snd (save_step_screenshot example_manager \<lparr>screenshot = Some ''!!!!''\<rparr> 3 fresh_world))
        (shot ''screenshot_A1_3.png'') = Some (File [])"
  by (simp add: b64decode_examples save_step_screenshot_fresh[of "''!!!!''" "[]"]
      lookup_world_with_shot)

text \<open>
C3. \<open>save_conversation_with_screenshots\<close> has two outcomes. Either it raises, and the
  error is the one of creating the base directory, of formatting the transcript or of
  writing it; or these three steps succeeded and it returns the path of the conversation
  file, which is not the empty string, with the result of the nested
  \<open>save_step_screenshot\<close>, which never raises and is \<open>None\<close> when no screenshot was
  saved.
\<close>

theorem save_conversation_outcomes:
  "(\<exists>e w'. save_conversation_with_screenshots self msgs resp bss n enc w = (Inl e, w')
       \<and> (fst (mkdir (conversation_dir self) w) = Inl e
          \<or> format_conversation_with_screenshot_refs self msgs resp n = Inl e
          \<or> (\<exists>w1 t. mkdir (conversation_dir self) w = (Inr (), w1)
                \<and> format_conversation_with_screenshot_refs self msgs resp n = Inr t
                \<and> fst (write_text (path_div (conversation_dir self)
                                     (conversation_filename (agent_id self) n))
                           t (Some (encoding_or_utf8 enc)) w1) = Inl e)))
   \<or> (\<exists>sp w1 t w2 w'. save_conversation_with_screenshots self msgs resp bss n enc w
         = (Inr (str_path (path_div (conversation_dir self)
                              (conversation_filename (agent_id self) n)), sp), w')
       \<and> str_path (path_div (conversation_dir self)
                      (conversation_filename (agent_id self) n)) \<noteq> []
       \<and> mkdir (conversation_dir self) w = (Inr (), w1)
       \<and> format_conversation_with_screenshot_refs self msgs resp n = Inr t
       \<and> write_text (path_div (conversation_dir self)
                         (conversation_filename (agent_id self) n))
               t (Some (encoding_or_utf8 enc)) w1 = (Inr (), w2)
       \<and> save_step_screenshot self bss n w2 = (Inr sp, w'))"
proof -
  let ?cp = "path_div (conversation_dir self) (conversation_filename (agent_id self) n)"
  obtain r1 w1 where m: "mkdir (conversation_dir self) w = (r1, w1)"
    by (cases "mkdir (conversation_dir self) w")
  show ?thesis
  proof (cases r1)
    case (Inl e)
    with m have "save_conversation_with_screenshots self msgs resp bss n enc w = (Inl e, w1)"
      by (simp add: save_conversation_with_screenshots_def)
    with m Inl show ?thesis by auto
  next
    case (Inr u)
    with m have m': "mkdir (conversation_dir self) w = (Inr (), w1)" by simp
    show ?thesis
    proof (cases "format_conversation_with_screenshot_refs self msgs resp n")
      case (Inl e)
      with m' have "save_conversation_with_screenshots self msgs resp bss n enc w = (Inl e, w1)"
        by (simp add: save_conversation_with_screenshots_def)
      with Inl show ?thesis by auto
    next
      case t: (Inr t)
      obtain r2 w2 where wr: "write_text ?cp t (Some (encoding_or_utf8 enc)) w1 = (r2, w2)"
        by (cases "write_text ?cp t (Some (encoding_or_utf8 enc)) w1")
      show ?thesis
      proof (cases r2)
        case (Inl e)
        with m' t wr have "save_conversation_with_screenshots self msgs resp bss n enc w = (Inl e, w2)"
          by (simp add: save_conversation_with_screenshots_def Let_def)
        moreover from wr Inl have "fst (write_text ?cp t (Some (encoding_or_utf8 enc)) w1) = Inl e"
          by simp
        ultimately show ?thesis using m' t by blast
      next
        case (Inr u2)
        obtain sp w3 where s: "save_step_screenshot self bss n w2 = (Inr sp, w3)"
          using save_step_screenshot_total by blast
        with m' t wr Inr have "save_conversation_with_screenshots self msgs resp bss n enc w
            = (Inr (str_path ?cp, sp), w3)"
          by (simp add: save_conversation_with_screenshots_def Let_def)
        moreover from wr Inr have "write_text ?cp t (Some (encoding_or_utf8 enc)) w1 = (Inr (), w2)"
          by simp
        ultimately show ?thesis
          using s m' t str_path_conversation_nonempty[of "conversation_dir self" "agent_id self" n]
          by blast
      qed
    qed
  qed
qed

text \<open>A payload that cannot be decoded leaves the conversation path in place and the second
  component empty; a base directory that is a file makes the call raise.\<close>

theorem save_conversation_outcomes_witness:
  "fst (save_conversation_with_screenshots example_manager [] (BaseModel [] [])
          \<lparr>screenshot = Some ''invalid''\<rparr> 3 None fresh_world)
     = Inr (''out/conversation_A1_3.txt'', None)
   \<and> fst (save_conversation_with_screenshots example_manager [] (BaseModel [] [])
          \<lparr>screenshot = Some ''invalid''\<rparr> 3 None
          (fresh_world\<lparr>nodes := [(\<lparr>anchor = [], parts = [''out'']\<rparr>, File [])]\<rparr>))
     = Inl FileExistsError"
proof -
  let ?cp = "\<lparr>anchor = [], parts = [''out'', ''conversation_A1_3.txt'']\<rparr>"
  let ?w1 = "fresh_world\<lparr>nodes := [(\<lparr>anchor = [], parts = [''out'']\<rparr>, Dir)]\<rparr>"
  let ?bss = "\<lparr>screenshot = Some ''invalid''\<rparr>"
  obtain t where f: "format_conversation_with_screenshot_refs example_manager [] (BaseModel [] []) 3 = Inr t"
    by (simp add: format_conversation_with_screenshot_refs_def BaseModel_def)
  obtain r2 w2 where wr: "write_text ?cp t (Some (encoding_or_utf8 None)) ?w1 = (r2, w2)"
    by (cases "write_text ?cp t (Some (encoding_or_utf8 None)) ?w1")
  with write_conversation_example[of t "Some (encoding_or_utf8 None)"] have r2: "r2 = Inr ()" by simp
  obtain r3 w3 where sv: "save_step_screenshot example_manager ?bss 3 w2 = (r3, w3)"
    by (cases "save_step_screenshot example_manager ?bss 3 w2")
  with save_step_screenshot_decode_error[OF b64decode_examples(2), of example_manager 3 w2]
  have r3: "r3 = Inr None" by simp
  have 1: "save_conversation_with_screenshots example_manager [] (BaseModel [] []) ?bss 3 None fresh_world
      = (Inr (''out/conversation_A1_3.txt'', None), w3)"
    using f wr r2 sv r3
    unfolding save_conversation_with_screenshots_def Let_def conversation_path_example
    by (simp add: example_manager_fields(2) mkdir_out_fresh str_path_def)
  have 2: "fst (save_conversation_with_screenshots example_manager [] (BaseModel [] []) ?bss 3 None
          (fresh_world\<lparr>nodes := [(\<lparr>anchor = [], parts = [''out'']\<rparr>, File [])]\<rparr>))
     = Inl FileExistsError"
    by (simp add: save_conversation_with_screenshots_def example_manager_fields(2) mkdir_out_is_file)
  show ?thesis
    using save_conversation_outcomes[of example_manager "[]" "BaseModel [] []" ?bss 3 None fresh_world] 1 2
    by simp
qed

text \<open>
C4. The step number is read back from the file name of a screenshot without loss, for
  every integer and so for every non-negative one. When the agent identifier contains no
  slash, a screenshot for step \<open>n\<close> was saved, and the rebuild of the index ran without
  an error, then the index file holds the line \<open>Step n: screenshot_{agent}_n.png\<close>.
\<close>

theorem index_round_trip:
  "step_key (screenshot_filename (agent_id self) n) = Inr n
   \<and> (CHR ''/'' \<notin> set (agent_id self)
       \<and> save_step_screenshot self bss n w = (Inr (Some p), w1)
       \<and> fst (create_screenshot_index_try self w1) = Inr ()
      \<longrightarrow> (\<exists>files bytes.
             codec w1 None (join [CHR 0x0A] (index_lines (agent_id self) files)) = Inr bytes
             \<and> lookup (snd (create_screenshot_index self w1))
                  (path_div (screenshots_dir self) ''index.md'') = Some (File bytes)
             \<and> ''Step '' @ str_int n @ '': '' @ screenshot_filename (agent_id self) n
                  \<in> set (index_lines (agent_id self) files)))"
proof (intro conjI impI)
  show "step_key (screenshot_filename (agent_id self) n) = Inr n"
    by (rule step_key_screenshot_filename)
next
  let ?fn = "screenshot_filename (agent_id self) n"
  let ?q = "path_div (screenshots_dir self) ?fn"
  let ?sd = "screenshots_dir self"
  assume a: "CHR ''/'' \<notin> set (agent_id self)
       \<and> save_step_screenshot self bss n w = (Inr (Some p), w1)
       \<and> fst (create_screenshot_index_try self w1) = Inr ()"
  then have ns: "CHR ''/'' \<notin> set ?fn" by (simp add: screenshot_filename_no_slash)
  note pq = parent_name_path_div[OF ns screenshot_filename_not_trivial, of ?sd]
  from a have sv: "save_step_screenshot self bss n w = (Inr (Some p), w1)" by simp
  obtain d w' w2 where wb: "write_bytes ?q d w' = (Inr (), w2)"
    and w1: "w1 = logger DEBUG (''Screenshot saved: '' @ str_path ?q) None w2"
    by (rule save_step_screenshot_Some[OF sv]) blast
  from wb have lq: "lookup w1 ?q = Some (File d)" by (simp add: w1 write_bytes_lookup)
  from wb have "lookup w2 (parent ?q) = Some Dir" by (rule write_bytes_parent)
  with pq(1) have ld: "lookup w1 ?sd = Some Dir" by (simp add: w1)
  then have ex: "exists ?sd w1" by (simp add: exists_def)
  obtain paths where it: "iterdir ?sd w1 = Inr paths"
  proof (cases "iterdir ?sd w1")
    case (Inl e)
    with ex have "fst (create_screenshot_index_try self w1) = Inl e"
      by (simp add: create_screenshot_index_try_def)
    with a show ?thesis by simp
  next
    case (Inr paths)
    then show ?thesis by (rule that)
  qed
  from it lq pq(3) pq(1) have "?q \<in> set paths" by (rule iterdir_member)
  then have mem: "?fn \<in> set (select_screenshots (agent_id self) paths)"
    using pq(2) by (rule select_screenshots_member)
  then have ne: "select_screenshots (agent_id self) paths \<noteq> []" by auto
  let ?files = "sort_key step_number_of (select_screenshots (agent_id self) paths)"
  from a have ok: "fst (create_screenshot_index_try self w1) = Inr ()" by simp
  obtain bytes where b: "codec w1 None (index_text (agent_id self) ?files) = Inr bytes"
    "lookup (snd (create_screenshot_index self w1)) (path_div ?sd ''index.md'') = Some (File bytes)"
    using create_screenshot_index_written(1)[OF it refl ne ok] by blast
  from mem have "?fn \<in> set ?files" by simp
  then have "''Step '' @ step_segment ?fn @ '': '' @ ?fn \<in> set (index_lines (agent_id self) ?files)"
    by (simp add: index_lines_def)
  then have "''Step '' @ str_int n @ '': '' @ ?fn \<in> set (index_lines (agent_id self) ?files)"
    by (simp only: step_segment_screenshot_filename)
  with b show "\<exists>files bytes.
             codec w1 None (join [CHR 0x0A] (index_lines (agent_id self) files)) = Inr bytes
             \<and> lookup (snd (create_screenshot_index self w1))
                  (path_div (screenshots_dir self) ''index.md'') = Some (File bytes)
             \<and> ''Step '' @ str_int n @ '': '' @ screenshot_filename (agent_id self) n
                  \<in> set (index_lines (agent_id self) files)"
    unfolding index_text_def by blast
qed

text \<open>Saving step 3 in the fresh world and rebuilding the index.\<close>

theorem index_round_trip_witness:
  "step_key ''screenshot_A1_3.png'' = Inr 3
   \<and> (\<exists>files bytes.
         lookup (snd (create_screenshot_index example_manager
                   (snd (save_step_screenshot example_manager \<lparr>screenshot = Some ''aGVsbG8=''\<rparr> 3
                           fresh_world))))
            (shot ''index.md'') = Some (File bytes)
         \<and> bytes = join [CHR 0x0A] (index_lines ''A1'' files)
         \<and> ''Step 3: screenshot_A1_3.png'' \<in> set (index_lines ''A1'' files))"
proof -
  let ?w1 = "logger DEBUG ''Screenshot saved: out/screenshots/screenshot_A1_3.png'' None
         (world_with [(''screenshot_A1_3.png'', ''hello'')])"
  have sv: "save_step_screenshot example_manager \<lparr>screenshot = Some ''aGVsbG8=''\<rparr> 3 fresh_world
    = (Inr (Some ''out/screenshots/screenshot_A1_3.png''), ?w1)"
    by (rule save_step_screenshot_fresh) (simp_all add: b64decode_examples)
  have "fst (create_screenshot_index_try example_manager (world_with [(''screenshot_A1_3.png'', ''hello'')])) = Inr ()"
    using create_screenshot_index_try_example[OF select_A1_examples(4) _ sort_by_step_examples(2)]
    by simp
  then have t: "fst (create_screenshot_index_try example_manager ?w1) = Inr ()"
    by (simp only: create_screenshot_index_try_logger)
  show ?thesis
    using index_round_trip[where self = example_manager and n = 3 and w = fresh_world
        and bss = "\<lparr>screenshot = Some ''aGVsbG8=''\<rparr>"
        and p = "''out/screenshots/screenshot_A1_3.png''" and ?w1.0 = ?w1]
      sv t
    by (auto simp: example_manager_fields(1) filename_A1_3 str_int_3 index_path_example)
qed

text \<open>
C5. When the rebuild finds a non-empty selection of screenshot names and runs without
  an error, the file \<open>index.md\<close> of the screenshots directory holds, whatever it held
  before, the encoding of the text of \<open>index_text\<close>: title, blank line, agent, count,
  blank line and one line \<open>Step {segment}: {name}\<close> for each selected name, joined by
  line feeds. The names are in ascending order of the integer their step segment stands
  for, every selected name has such an integer, and no name is lost or added. The step
  shown in a line is the segment as it stands in the name; for a name that this module
  writes it is the decimal text of the step number.
\<close>

theorem index_file_format:
  "iterdir (screenshots_dir self) w = Inr paths
   \<and> select_screenshots (agent_id self) paths = files \<and> files \<noteq> []
   \<and> fst (create_screenshot_index_try self w) = Inr ()
   \<longrightarrow> (\<exists>bytes.
          codec w None (index_text (agent_id self) (sort_key step_number_of files)) = Inr bytes
          \<and> lookup (snd (create_screenshot_index self w))
                (path_div (screenshots_dir self) ''index.md'') = Some (File bytes))
       \<and> (\<forall>x\<in>set files. step_key x = Inr (step_number_of x))
       \<and> sorted (map step_number_of (sort_key step_number_of files))
       \<and> mset (sort_key step_number_of files) = mset files
       \<and> (\<forall>a k. step_segment (screenshot_filename a k) = str_int k
                 \<and> step_number_of (screenshot_filename a k) = k)"
proof (intro impI)
  let ?ip = "path_div (screenshots_dir self) ''index.md''"
  assume a: "iterdir (screenshots_dir self) w = Inr paths
   \<and> select_screenshots (agent_id self) paths = files \<and> files \<noteq> []
   \<and> fst (create_screenshot_index_try self w) = Inr ()"
  then have t: "create_screenshot_index_try self w =
    (case sort_by_step files of
       Inl e \<Rightarrow> (Inl e, w)
     | Inr sorted_files \<Rightarrow>
        (case write_text ?ip (index_text (agent_id self) sorted_files) None w of
           (Inl e, w') \<Rightarrow> (Inl e, w')
         | (Inr _, w') \<Rightarrow>
            (Inr (), logger INFO (''Screenshot index created: '' @ str_path ?ip) None w')))"
    by (simp add: create_screenshot_index_try_selected[where paths = paths])
  with a obtain sorted_files where s: "sort_by_step files = Inr sorted_files"
    by (cases "sort_by_step files") auto
  then have sf: "sorted_files = sort_key step_number_of files"
    and keys: "\<forall>x\<in>set files. step_key x = Inr (step_number_of x)"
    by (auto dest: sort_by_step_Inr)
  obtain r w' where wr: "write_text ?ip (index_text (agent_id self) sorted_files) None w = (r, w')"
    by (cases "write_text ?ip (index_text (agent_id self) sorted_files) None w")
  with t s a have r: "r = Inr ()" by (cases r) auto
  with t s wr have t': "create_screenshot_index_try self w =
      (Inr (), logger INFO (''Screenshot index created: '' @ str_path ?ip) None w')"
    by simp
  then have c: "create_screenshot_index self w =
      (Inr (), logger INFO (''Screenshot index created: '' @ str_path ?ip) None w')"
    by (simp add: create_screenshot_index_def)
  from wr r obtain b where "codec w None (index_text (agent_id self) sorted_files) = Inr b"
    "lookup w' ?ip = Some (File b)"
    by (auto dest: write_text_lookup)
  with c sf have "\<exists>bytes.
          codec w None (index_text (agent_id self) (sort_key step_number_of files)) = Inr bytes
          \<and> lookup (snd (create_screenshot_index self w)) ?ip = Some (File bytes)"
    by simp
  with keys show "(\<exists>bytes.
          codec w None (index_text (agent_id self) (sort_key step_number_of files)) = Inr bytes
          \<and> lookup (snd (create_screenshot_index self w)) ?ip = Some (File bytes))
       \<and> (\<forall>x\<in>set files. step_key x = Inr (step_number_of x))
       \<and> sorted (map step_number_of (sort_key step_number_of files))
       \<and> mset (sort_key step_number_of files) = mset files
       \<and> (\<forall>a k. step_segment (screenshot_filename a k) = str_int k
                 \<and> step_number_of (screenshot_filename a k) = k)"
    by (simp add: step_segment_screenshot_filename step_number_of_def step_key_screenshot_filename)
qed

text \<open>Steps 10 and 2, listed in this order by the directory: step 2 comes first in the
  index.\<close>

theorem index_file_format_witness:
  "lookup (snd (create_screenshot_index example_manager
      (world_with [(''screenshot_A1_10.png'', ''hello''), (''screenshot_A1_2.png'', ''hello'')])))
     (shot ''index.md'')
   = Some (File (''# Screenshot Index'' @ [CHR 0x0A, CHR 0x0A]
       @ ''Agent ID: A1'' @ [CHR 0x0A]
       @ ''Total Screenshots: 2'' @ [CHR 0x0A, CHR 0x0A]
       @ ''Step 2: screenshot_A1_2.png'' @ [CHR 0x0A]
       @ ''Step 10: screenshot_A1_10.png''))"
proof -
  let ?files = "[(''screenshot_A1_10.png'', ''hello''), (''screenshot_A1_2.png'', ''hello'')]"
  let ?names = "[''screenshot_A1_10.png'', ''screenshot_A1_2.png'']"
  have t: "fst (create_screenshot_index_try example_manager (world_with ?files)) = Inr ()"
    using create_screenshot_index_try_example[OF select_A1_examples(3) _ sort_by_step_examples(1)]
    by simp
  have it: "iterdir (screenshots_dir example_manager) (world_with ?files)
      = Inr (map (\<lambda>(nm, bytes). shot nm) ?files)"
    by (simp only: example_manager_fields iterdir_world_with)
  have s: "sort_key step_number_of ?names = [''screenshot_A1_2.png'', ''screenshot_A1_10.png'']"
    using sort_by_step_Inr(1)[OF sort_by_step_examples(1)] by (rule sym)
  have "\<exists>bytes. Inr (index_text ''A1'' [''screenshot_A1_2.png'', ''screenshot_A1_10.png'']) = Inr bytes
      \<and> lookup (snd (create_screenshot_index example_manager (world_with ?files)))
            (shot ''index.md'') = Some (File bytes)"
    using index_file_format[where self = example_manager and w = "world_with ?files"
        and paths = "map (\<lambda>(nm, bytes). shot nm) ?files" and files = ?names]
      it t select_A1_examples(3)
    unfolding s by (simp add: example_manager_fields(1) index_path_example)
  then show ?thesis
    by (auto simp: index_text_example)
qed

text \<open>
C6. Without a payload \<open>save_step_screenshot\<close> returns \<open>None\<close> and leaves the file
  system as it was. With a non-empty payload that the decoder accepts, and when the
  directory can be created and the file written, it returns the text of the path
  \<open>screenshots_dir / screenshot_{agent}_{step}.png\<close> and that file holds the decoded
  bytes; when the agent identifier contains no slash, the file is an entry of the
  screenshots directory with that name.
\<close>

theorem save_step_screenshot_writes_payload:
  "(screenshot bss = None \<longrightarrow>
      save_step_screenshot self bss n w =
        (Inr None, logger DEBUG (''No screenshot available for step '' @ str_int n) None w)
      \<and> nodes (snd (save_step_screenshot self bss n w)) = nodes w)
   \<and> (screenshot bss = Some payload \<and> payload \<noteq> [] \<and> b64decode payload = Inr d
       \<and> mkdir (screenshots_dir self) w = (Inr (), w1)
       \<and> write_bytes (path_div (screenshots_dir self) (screenshot_filename (agent_id self) n)) d w1
           = (Inr (), w2)
       \<longrightarrow> fst (save_step_screenshot self bss n w)
             = Inr (Some (str_path (path_div (screenshots_dir self)
                                      (screenshot_filename (agent_id self) n))))
           \<and> lookup (snd (save_step_screenshot self bss n w))
               (path_div (screenshots_dir self) (screenshot_filename (agent_id self) n))
             = Some (File d)
           \<and> (CHR ''/'' \<notin> set (agent_id self) \<longrightarrow>
                parent (path_div (screenshots_dir self) (screenshot_filename (agent_id self) n))
                  = screenshots_dir self
                \<and> name (path_div (screenshots_dir self) (screenshot_filename (agent_id self) n))
                  = screenshot_filename (agent_id self) n))"
proof (intro conjI impI)
  assume "screenshot bss = None"
  then show "save_step_screenshot self bss n w =
        (Inr None, logger DEBUG (''No screenshot available for step '' @ str_int n) None w)"
    by (simp add: save_step_screenshot_absent)
  then show "nodes (snd (save_step_screenshot self bss n w)) = nodes w" by simp
next
  let ?p = "path_div (screenshots_dir self) (screenshot_filename (agent_id self) n)"
  assume a: "screenshot bss = Some payload \<and> payload \<noteq> [] \<and> b64decode payload = Inr d
       \<and> mkdir (screenshots_dir self) w = (Inr (), w1)
       \<and> write_bytes ?p d w1 = (Inr (), w2)"
  then have t: "save_step_screenshot_try self payload n w =
      (Inr (str_path ?p), logger DEBUG (''Screenshot saved: '' @ str_path ?p) None w2)"
    by (simp add: save_step_screenshot_try_def Let_def)
  with a have s: "save_step_screenshot self bss n w =
      (Inr (Some (str_path ?p)), logger DEBUG (''Screenshot saved: '' @ str_path ?p) None w2)"
    by (simp add: save_step_screenshot_success)
  then show "fst (save_step_screenshot self bss n w) = Inr (Some (str_path ?p))" by simp
  from a have "write_bytes ?p d w1 = (Inr (), w2)" by blast
  then have "lookup w2 ?p = Some (File d)" by (rule write_bytes_lookup)
  with s show "lookup (snd (save_step_screenshot self bss n w)) ?p = Some (File d)" by simp
next
  assume "CHR ''/'' \<notin> set (agent_id self)"
  then have ns: "CHR ''/'' \<notin> set (screenshot_filename (agent_id self) n)"
    by (rule screenshot_filename_no_slash)
  show "parent (path_div (screenshots_dir self) (screenshot_filename (agent_id self) n))
                  = screenshots_dir self"
    by (rule parent_name_path_div[OF ns screenshot_filename_not_trivial])
  show "name (path_div (screenshots_dir self) (screenshot_filename (agent_id self) n))
                  = screenshot_filename (agent_id self) n"
    by (rule parent_name_path_div[OF ns screenshot_filename_not_trivial])
qed

text \<open>The payload \<open>aGVsbG8=\<close> in the fresh world: the file holds \<open>hello\<close>.\<close>

theorem save_step_screenshot_writes_payload_witness:
  "fst (save_step_screenshot example_manager \<lparr>screenshot = Some ''aGVsbG8=''\<rparr> 3 fresh_world)
       = Inr (Some ''out/screenshots/screenshot_A1_3.png'')
   \<and> lookup (snd (save_step_screenshot example_manager \<lparr>screenshot = Some ''aGVsbG8=''\<rparr> 3 fresh_world))
        (shot ''screenshot_A1_3.png'') = Some (File ''hello'')
   \<and> parent (shot ''screenshot_A1_3.png'') = screenshots_dir example_manager
   \<and> name (shot ''screenshot_A1_3.png'') = ''screenshot_A1_3.png''
   \<and> save_step_screenshot example_manager \<lparr>screenshot = None\<rparr> 3 fresh_world =
        (Inr None, logger DEBUG ''No screenshot available for step 3'' None fresh_world)"
proof -
  have wr: "write_bytes (shot ''screenshot_A1_3.png'') ''hello'' (world_with [])
      = (Inr (), world_with ([] @ [(''screenshot_A1_3.png'', ''hello'')]))"
    by (rule write_bytes_shot_new) simp
  have saved: "fst (save_step_screenshot example_manager \<lparr>screenshot = Some ''aGVsbG8=''\<rparr> 3 fresh_world)
       = Inr (Some ''out/screenshots/screenshot_A1_3.png'')
   \<and> lookup (snd (save_step_screenshot example_manager \<lparr>screenshot = Some ''aGVsbG8=''\<rparr> 3 fresh_world))
        (shot ''screenshot_A1_3.png'') = Some (File ''hello'')
   \<and> save_step_screenshot example_manager \<lparr>screenshot = None\<rparr> 3 fresh_world =
        (Inr None, logger DEBUG ''No screenshot available for step 3'' None fresh_world)"
    using save_step_screenshot_writes_payload[where self = example_manager and bss = "\<lparr>screenshot = Some ''aGVsbG8=''\<rparr>"
        and n = 3 and w = fresh_world and payload = "''aGVsbG8=''" and d = "''hello''"
        and ?w1.0 = "world_with []" and ?w2.0 = "world_with [(''screenshot_A1_3.png'', ''hello'')]"]
      save_step_screenshot_writes_payload[where self = example_manager and bss = "\<lparr>screenshot = None\<rparr>"
        and n = 3 and w = fresh_world]
      wr
    by (simp add: b64decode_examples mkdir_screenshots_fresh path_A1_3 str_path_shot str_int_3)
  have entry: "parent (shot ''screenshot_A1_3.png'') = screenshots_dir example_manager
   \<and> name (shot ''screenshot_A1_3.png'') = ''screenshot_A1_3.png''"
    by (simp add: example_manager_fields(3))
  from saved entry show ?thesis by blast
qed

text \<open>
C7. When a selected file name has a step segment that is not an integer,
  \<open>create_screenshot_index\<close> does not raise, logs a warning with the \<open>ValueError\<close> and
  writes nothing: the rebuild is given up as a whole, also for the names that are well
  formed. The malformed name is not skipped.
\<close>

theorem malformed_name_aborts_index:
  "iterdir (screenshots_dir self) w = Inr paths
   \<and> x \<in> set (select_screenshots (agent_id self) paths) \<and> step_key x = Inl e
   \<longrightarrow> create_screenshot_index self w =
         (Inr (), logger WARNING ''Failed to create screenshot index: '' (Some ValueError) w)
       \<and> nodes (snd (create_screenshot_index self w)) = nodes w"
proof (intro impI)
  assume a: "iterdir (screenshots_dir self) w = Inr paths
   \<and> x \<in> set (select_screenshots (agent_id self) paths) \<and> step_key x = Inl e"
  then have ne: "select_screenshots (agent_id self) paths \<noteq> []" by auto
  from a have "sort_by_step (select_screenshots (agent_id self) paths) = Inl ValueError"
    by (blast intro: sort_by_step_fails)
  with a ne have "create_screenshot_index_try self w = (Inl ValueError, w)"
    by (simp add: create_screenshot_index_try_selected[where paths = paths])
  then have "create_screenshot_index self w =
         (Inr (), logger WARNING ''Failed to create screenshot index: '' (Some ValueError) w)"
    by (simp add: create_screenshot_index_def)
  then show "create_screenshot_index self w =
         (Inr (), logger WARNING ''Failed to create screenshot index: '' (Some ValueError) w)
       \<and> nodes (snd (create_screenshot_index self w)) = nodes w" by simp
qed

text \<open>A directory with a well-formed and a malformed name.\<close>

theorem malformed_name_aborts_index_witness:
  "create_screenshot_index example_manager
     (world_with [(''screenshot_A1_10.png'', ''hello''), (''screenshot_A1_x.png'', ''zz'')])
   = (Inr (), logger WARNING ''Failed to create screenshot index: '' (Some ValueError)
        (world_with [(''screenshot_A1_10.png'', ''hello''), (''screenshot_A1_x.png'', ''zz'')]))"
  using malformed_name_aborts_index[where self = example_manager
      and w = "world_with [(''screenshot_A1_10.png'', ''hello''), (''screenshot_A1_x.png'', ''zz'')]"
      and paths = "map (\<lambda>(nm, bytes). shot nm) [(''screenshot_A1_10.png'', ''hello''), (''screenshot_A1_x.png'', ''zz'')]"
      and x = "''screenshot_A1_x.png''" and e = ValueError]
    select_A1_examples(2) step_key_examples(2)
  by (simp add: example_manager_fields iterdir_world_with)

text \<open>The malformed name is not filtered out: with \<open>screenshot_A1_x.png\<close> beside the
  well-formed \<open>screenshot_A1_10.png\<close>, no index file exists after the rebuild.\<close>

theorem malformed_name_skipped_counterexample:
  "step_key ''screenshot_A1_10.png'' = Inr 10
   \<and> step_key ''screenshot_A1_x.png'' = Inl ValueError
   \<and> lookup (world_with [(''screenshot_A1_10.png'', ''hello''), (''screenshot_A1_x.png'', ''zz'')])
        (shot ''screenshot_A1_10.png'') = Some (File ''hello'')
   \<and> lookup (snd (create_screenshot_index example_manager
        (world_with [(''screenshot_A1_10.png'', ''hello''), (''screenshot_A1_x.png'', ''zz'')])))
        (shot ''index.md'') = None"
proof -
  let ?w = "world_with [(''screenshot_A1_10.png'', ''hello''), (''screenshot_A1_x.png'', ''zz'')]"
  have "sort_by_step [''screenshot_A1_10.png'', ''screenshot_A1_x.png''] = Inl ValueError"
    by (rule sort_by_step_fails[of "''screenshot_A1_x.png''" _ ValueError])
       (simp_all add: step_key_examples)
  then have "create_screenshot_index_try example_manager ?w = (Inl ValueError, ?w)"
    using create_screenshot_index_try_selected[where self = example_manager and w = ?w
        and paths = "map (\<lambda>(nm, bytes). shot nm) [(''screenshot_A1_10.png'', ''hello''), (''screenshot_A1_x.png'', ''zz'')]"
        and files = "[''screenshot_A1_10.png'', ''screenshot_A1_x.png'']"]
      select_A1_examples(2)
    by (simp add: example_manager_fields iterdir_world_with)
  then have "create_screenshot_index example_manager ?w
      = (Inr (), logger WARNING ''Failed to create screenshot index: '' (Some ValueError) ?w)"
    by (simp add: create_screenshot_index_def)
  then show ?thesis
    by (simp add: step_key_examples lookup_world_with_shot)
qed

text \<open>
C8. \<open>create_screenshot_index\<close> returns without raising and leaves the world as it was
  (no file, no directory, no log record) when the screenshots directory does not exist, and
  when the directory holds no name of the agent's screenshots.
\<close>

theorem create_screenshot_index_degenerate:
  "(\<not> exists (screenshots_dir self) w \<longrightarrow> create_screenshot_index self w = (Inr (), w))
   \<and> (iterdir (screenshots_dir self) w = Inr paths
        \<and> select_screenshots (agent_id self) paths = []
       \<longrightarrow> create_screenshot_index self w = (Inr (), w))"
  by (simp add: create_screenshot_index_def create_screenshot_index_try_def)

text \<open>The fresh world, and a directory with an old index and another agent's screenshot.\<close>

theorem create_screenshot_index_degenerate_witness:
  "create_screenshot_index example_manager fresh_world = (Inr (), fresh_world)
   \<and> create_screenshot_index example_manager
        (world_with [(''index.md'', ''old''), (''screenshot_B7_1.png'', ''hello'')])
      = (Inr (), world_with [(''index.md'', ''old''), (''screenshot_B7_1.png'', ''hello'')])"
  using create_screenshot_index_degenerate[where self = example_manager and w = fresh_world]
    create_screenshot_index_degenerate[where self = example_manager
      and w = "world_with [(''index.md'', ''old''), (''screenshot_B7_1.png'', ''hello'')]"
      and paths = "map (\<lambda>(nm, bytes). shot nm) [(''index.md'', ''old''), (''screenshot_B7_1.png'', ''hello'')]"]
    select_A1_examples(1)
  by (simp add: example_manager_fields iterdir_world_with exists_def lookup_def fresh_world_def)

text \<open>
  C9. The file name of an artifact determines the agent identifier and the step number:
  two different pairs of agent identifier and step number give different screenshot names
  and different conversation names, whatever characters (underscores included) the
  identifiers contain. This holds for every integer step number, so in particular for
  the non-negative ones.
\<close>

theorem filename_injective:
  "(a, n) \<noteq> (a', n') \<Longrightarrow>
     screenshot_filename a n \<noteq> screenshot_filename a' n'
     \<and> conversation_filename a n \<noteq> conversation_filename a' n'"
  using screenshot_filename_inj[of a n a' n'] conversation_filename_inj[of a n a' n']
  by blast

theorem filename_injective_witness:
  "(''A_1'', 2 :: int) \<noteq> (''A'', 12)
   \<and> screenshot_filename ''A_1'' 2 \<noteq> screenshot_filename ''A'' 12
   \<and> conversation_filename ''A_1'' 2 \<noteq> conversation_filename ''A'' 12"
  using filename_injective[of "''A_1''" 2 "''A''" 12] by simp

text \<open>
C10. An empty payload is treated as an absent one: \<open>save_step_screenshot\<close> returns
  \<open>None\<close> at once, logs the same debug record, and creates and writes nothing.
\<close>

theorem empty_payload_is_absent: 
  "save_step_screenshot self (bss\<lparr>screenshot := Some []\<rparr>) n w =
     (Inr None, logger DEBUG (''No screenshot available for step '' @ str_int n) None w)
   \<and> save_step_screenshot self (bss\<lparr>screenshot := Some []\<rparr>) n w =
       save_step_screenshot self (bss\<lparr>screenshot := None\<rparr>) n w
   \<and> nodes (snd (save_step_screenshot self (bss\<lparr>screenshot := Some []\<rparr>) n w)) = nodes w"
  by (simp add: save_step_screenshot_def)

text \<open>The empty payload in the fresh world.\<close>

theorem empty_payload_is_absent_witness:
  "save_step_screenshot example_manager \<lparr>screenshot = Some []\<rparr> 3 fresh_world =
     (Inr None, logger DEBUG ''No screenshot available for step 3'' None fresh_world)"
  using empty_payload_is_absent[of example_manager "\<lparr>screenshot = None\<rparr>" 3 fresh_world]
  by (simp add: str_int_3)

end
